theory Spec2Isabelle
  imports Complex_Main
begin

section \<open>Strings of the host language\<close>

text \<open>
  A JavaScript string is a sequence of UTF-16 code units, and \<open>text.length\<close> counts them.
  The embedding writes a string as a HOL \<open>string\<close> whose characters are the code units,
  so it covers the texts all of whose code units lie below 256.
\<close>

definition isSpace :: "char \<Rightarrow> bool" where
  \<comment> \<open>the class \<open>\s\<close>, which is also what \<open>trim\<close> strips\<close>
  "isSpace c = (c \<in> set [CHR 0x09, CHR 0x0A, CHR 0x0B, CHR 0x0C, CHR 0x0D, CHR 0x20, CHR 0xA0])"

definition isWordChar :: "char \<Rightarrow> bool" where
  \<comment> \<open>the class \<open>\w\<close>\<close>
  "isWordChar c = (c \<in> set (''abcdefghijklmnopqrstuvwxyz'' @ ''ABCDEFGHIJKLMNOPQRSTUVWXYZ''
                               @ ''0123456789'' @ ''_''))"

definition upperLetters :: string where
  "upperLetters = ''ABCDEFGHIJKLMNOPQRSTUVWXYZ'' @
     [CHR 0xC0, CHR 0xC1, CHR 0xC2, CHR 0xC3, CHR 0xC4, CHR 0xC5, CHR 0xC6, CHR 0xC7,
      CHR 0xC8, CHR 0xC9, CHR 0xCA, CHR 0xCB, CHR 0xCC, CHR 0xCD, CHR 0xCE, CHR 0xCF,
      CHR 0xD0, CHR 0xD1, CHR 0xD2, CHR 0xD3, CHR 0xD4, CHR 0xD5, CHR 0xD6,
      CHR 0xD8, CHR 0xD9, CHR 0xDA, CHR 0xDB, CHR 0xDC, CHR 0xDD, CHR 0xDE]"

definition lowerLetters :: string where
  "lowerLetters = ''abcdefghijklmnopqrstuvwxyz'' @
     [CHR 0xE0, CHR 0xE1, CHR 0xE2, CHR 0xE3, CHR 0xE4, CHR 0xE5, CHR 0xE6, CHR 0xE7,
      CHR 0xE8, CHR 0xE9, CHR 0xEA, CHR 0xEB, CHR 0xEC, CHR 0xED, CHR 0xEE, CHR 0xEF,
      CHR 0xF0, CHR 0xF1, CHR 0xF2, CHR 0xF3, CHR 0xF4, CHR 0xF5, CHR 0xF6,
      CHR 0xF8, CHR 0xF9, CHR 0xFA, CHR 0xFB, CHR 0xFC, CHR 0xFD, CHR 0xFE]"

definition lowerChar :: "char \<Rightarrow> char" where
  "lowerChar c = (case map_of (zip upperLetters lowerLetters) c of Some l \<Rightarrow> l | None \<Rightarrow> c)"

definition toLowerCase :: "string \<Rightarrow> string" where
  "toLowerCase s = map lowerChar s"

definition trim :: "string \<Rightarrow> string" where
  "trim s = rev (dropWhile isSpace (rev (dropWhile isSpace s)))"

fun startsWith :: "string \<Rightarrow> string \<Rightarrow> bool" where
  "startsWith s [] = True"
| "startsWith [] (p # ps) = False"
| "startsWith (c # cs) (p # ps) = (c = p \<and> startsWith cs ps)"

fun includesStr :: "string \<Rightarrow> string \<Rightarrow> bool" where
  \<comment> \<open>\<open>s.includes(sub)\<close>: \<open>sub\<close> occurs in \<open>s\<close> as a contiguous substring\<close>
  "includesStr [] sub = (sub = [])"
| "includesStr (c # cs) sub = (startsWith (c # cs) sub \<or> includesStr cs sub)"

text \<open>
  \<open>s.split(re)\<close> for a pattern \<open>[...]+\<close> over a character class: the pieces between
  the maximal runs of class characters; a run at either end leaves an empty piece there,
  and the empty string splits into one empty piece.
\<close>

function splitOn :: "(char \<Rightarrow> bool) \<Rightarrow> string \<Rightarrow> string list" where
  "splitOn P [] = [[]]"
| "splitOn P (c # cs) =
     (if P c then [] # splitOn P (dropWhile P cs)
      else (case splitOn P cs of [] \<Rightarrow> [[c]] | p # ps \<Rightarrow> (c # p) # ps))"
  by pat_completeness auto
termination
  by (relation "measure (\<lambda>(P, s). length s)") (auto simp: length_dropWhile_le less_Suc_eq_le)

text \<open>\<open>s.split(/\n\n+/)\<close>: a separator is a maximal run of two or more line feeds.\<close>

function splitParagraphs :: "string \<Rightarrow> string list" where
  "splitParagraphs [] = [[]]"
| "splitParagraphs (c # cs) =
     (if c = CHR 0x0A \<and> cs \<noteq> [] \<and> hd cs = CHR 0x0A
      then [] # splitParagraphs (dropWhile (\<lambda>x. x = CHR 0x0A) cs)
      else (case splitParagraphs cs of [] \<Rightarrow> [[c]] | p # ps \<Rightarrow> (c # p) # ps))"
  by pat_completeness auto
termination
  by (relation "measure length") (auto simp: length_dropWhile_le less_Suc_eq_le)

text \<open>\<open>s.split(' ')\<close>: every single space separates.\<close>

fun splitSpace :: "string \<Rightarrow> string list" where
  "splitSpace [] = [[]]"
| "splitSpace (c # cs) =
     (if c = CHR '' '' then [] # splitSpace cs
      else (case splitSpace cs of [] \<Rightarrow> [[c]] | p # ps \<Rightarrow> (c # p) # ps))"

text \<open>\<open>s.replace(/\s+/g, ' ')\<close>: every maximal run of white space becomes one space.\<close>

function collapseSpaces :: "string \<Rightarrow> string" where
  "collapseSpaces [] = []"
| "collapseSpaces (c # cs) =
     (if isSpace c then CHR '' '' # collapseSpaces (dropWhile isSpace cs)
      else c # collapseSpaces cs)"
  by pat_completeness auto
termination
  by (relation "measure length") (auto simp: length_dropWhile_le less_Suc_eq_le)


section \<open>Numbers of the host language\<close>

text \<open>
  A JavaScript number is an IEEE 754 binary64 value. Counts are written as naturals.
  The formality score is a running sum whose value is compared with thresholds, so it is
  computed as the code computes it: every literal and every sum is rounded to the nearest
  binary64 value, ties to the even significand (\<open>toDouble\<close>). A binary64 value has a
  significand of 53 bits and a quantum of at least \<open>2^-1074\<close>; \<open>binade a\<close> is the
  exponent \<open>e\<close> with \<open>2^e \<le> a < 2^(e+1)\<close>, found in at most 2100 steps for every
  magnitude a binary64 value can have; \<open>quantumOf a\<close> is the distance of neighbouring
  binary64 values at magnitude \<open>a\<close>, and \<open>roundTo q a\<close> the multiple of \<open>q\<close> nearest to
  \<open>a\<close>. Overflow to \<open>Infinity\<close> is not modelled: the sums
  below stay between -2 and 2.

  The scorer's ratios and sums are written over the exact reals: what is proved of them
  (bounds, and which of them are positive) does not depend on the rounding.
\<close>

definition pow2 :: "int \<Rightarrow> real" where
  "pow2 k = (if 0 \<le> k then 2 ^ nat k else 1 / 2 ^ nat (- k))"

fun binadeFrom :: "nat \<Rightarrow> real \<Rightarrow> int \<Rightarrow> int" where
  "binadeFrom 0 a e = e"
| "binadeFrom (Suc steps) a e =
     (if a < 1 then binadeFrom steps (2 * a) (e - 1)
      else if 2 \<le> a then binadeFrom steps (a / 2) (e + 1)
      else e)"

definition binade :: "real \<Rightarrow> int" where
  "binade a = binadeFrom 2100 a 0"

definition nearest :: "int \<Rightarrow> real \<Rightarrow> int" where
  "nearest f x =
     (if x - of_int f < 1 / 2 then f
      else if 1 / 2 < x - of_int f then f + 1
      else if even f then f else f + 1)"

definition roundHalfEven :: "real \<Rightarrow> int" where
  "roundHalfEven x = nearest \<lfloor>x\<rfloor> x"

definition quantumOf :: "real \<Rightarrow> real" where
  "quantumOf a = pow2 (max (binade a - 52) (- 1074))"

definition roundTo :: "real \<Rightarrow> real \<Rightarrow> real" where
  "roundTo q a = of_int (roundHalfEven (a / q)) * q"

definition toDouble :: "real \<Rightarrow> real" where
  "toDouble x = (if x = 0 then 0 else sgn x * roundTo (quantumOf \<bar>x\<bar>) \<bar>x\<bar>)"

section \<open>The regular-expression engine and the configuration resource\<close>

text \<open>
  The patterns that only split on, strip or count the characters of a class are written out
  above and below. Every other regular expression of the detector is evaluated by the
  engine of the JavaScript runtime, which is not part of the repository: the embedding
  names each regular-expression literal of \<open>AIDetector\<close> and takes the engine as a
  parameter. \<open>RegExp src flags\<close> is the object built by \<open>new RegExp(src, flags)\<close>.

  \<^item> \<open>EmDashRe\<close>: the literal counted into \<open>emDashCount\<close>;
  \<^item> \<open>BulletRe\<close>: the class tested for \<open>hasBulletPoints\<close>;
  \<^item> \<open>NumberedListRe\<close>: \<^verbatim>\<open>/^\d+[\.\)]\s/m\<close>;
  \<^item> \<open>CitationRe\<close>: \<^verbatim>\<open>/\b(Act of \d{4}|Article \d+|Section \d+|\d{4}\s+[A-Z][a-z]+\s+[A-Z][a-z]+)\b/\<close>;
  \<^item> \<open>HashtagRe\<close>: \<^verbatim>\<open>/#\w+/g\<close>; \<open>MentionRe\<close>: \<^verbatim>\<open>/@\w+/g\<close>;
    \<open>AllCapsRe\<close>: \<^verbatim>\<open>/\b[A-Z]{3,}\b/g\<close>; \<open>LinkRe\<close>: \<^verbatim>\<open>/https?:\/\/\S+/g\<close>;
  \<^item> \<open>EmojiRe\<close>: the seven-range emoji class of \<open>countEmojis\<close> (flags \<open>gu\<close>);
    \<open>EmojiTailRe\<close>, \<open>EmojiLineRe\<close>, \<open>EmojiRepeatRe\<close>: the same class as
    \<^verbatim>\<open>(...){2,}\s*$\<close>, \<^verbatim>\<open>^(...)+$\<close> and \<^verbatim>\<open>(...)\1+\<close> in \<open>hasExcessiveEmojis\<close>;
  \<^item> \<open>EmojiNameRe\<close>: the three-range emoji class of \<open>hasEmojiInUsername\<close>,
    \<open>isShallowComment\<close> and \<open>hasMixedFormalEmoji\<close>;
  \<^item> \<open>SuspiciousNameRe i\<close>, \<open>ShallowRe i\<close>, \<open>HookRe i\<close>: the \<open>i\<close>-th entry (from 0) of the
    arrays \<open>suspiciousPatterns\<close>, \<open>shallowPatterns\<close> and \<open>hooks\<close>.
\<close>

datatype regexp =
    EmDashRe | BulletRe | NumberedListRe | CitationRe
  | HashtagRe | MentionRe | AllCapsRe | LinkRe
  | EmojiRe | EmojiTailRe | EmojiLineRe | EmojiRepeatRe | EmojiNameRe
  | SuspiciousNameRe nat | ShallowRe nat | HookRe nat
  | RegExp string string

text \<open>
  The configuration (\<open>ai-patterns.json\<close>): every field may be missing, which is \<open>None\<close>.
  Only the fields the detector reads are kept.
\<close>

record spam_indicators =
  genericResponses :: "string list option"
  cryptoKeywords :: "string list option"
  adultContentKeywords :: "string list option"
  promotionalPhrases :: "string list option"
  suspiciousLinkPatterns :: "string list option"

record pattern_config =
  aiIndicatorWords :: "string list option"
  aiPhrasePatterns :: "string list option"
  spamIndicators :: "spam_indicators option"

record host =
  rx_test :: "regexp \<Rightarrow> string \<Rightarrow> bool"  \<comment> \<open>\<open>re.test(s)\<close>\<close>
  rx_count :: "regexp \<Rightarrow> string \<Rightarrow> nat"  \<comment> \<open>\<open>(s.match(re) || []).length\<close>, \<open>re\<close> global\<close>
  rx_strip :: "regexp \<Rightarrow> string \<Rightarrow> string"  \<comment> \<open>\<open>s.replace(re, '')\<close>, \<open>re\<close> global\<close>
  rx_valid :: "string \<Rightarrow> string \<Rightarrow> bool"
    \<comment> \<open>\<open>new RegExp(src, flags)\<close> returns; otherwise it throws a SyntaxError\<close>
  fetched :: "pattern_config option"
    \<comment> \<open>what fetching and parsing \<open>ai-patterns.json\<close> gives; \<open>None\<close> when either fails\<close>

datatype error = TypeError | SyntaxError

datatype text_arg = Null | Text string

section \<open>The detector's data\<close>

record metadata =
  username :: "string option"
  displayName :: "string option"
  accountAge :: "nat option"
  hasAffiliateBadgeMeta :: "bool option"  \<comment> \<open>\<open>metadata.hasAffiliateBadge\<close>\<close>

record features =
  aiWordCount :: nat
  totalWords :: nat
  aiPhraseMatches :: "string list"
  emDashCount :: nat
  colonCount :: nat
  semicolonCount :: nat
  quotationCount :: nat
  hasBulletPoints :: bool
  hasNumberedList :: bool
  paragraphCount :: nat
  isLongThread :: bool
  hasCitations :: bool
  hasLegalJargon :: bool
  hasMixedFormalEmoji :: bool
  hasMultipleSources :: bool
  hasBalancedCommentary :: bool
  hasConversationalHook :: bool
  hashtagCount :: nat
  mentionCount :: nat
  allCapsWords :: nat
  emojiCount :: nat
  hasExcessiveEmojis :: bool
  hasGenericResponse :: bool
  hasCryptoSpam :: bool
  hasAdultContentPromo :: bool
  hasPromotionalContent :: bool
  linkCount :: nat
  hasSuspiciousLinks :: bool
  avgSentenceLength :: real
  vocabularyDiversity :: real
  formalityScore :: real
  isNewAccount :: bool
  hasSuspiciousName :: bool
  hasAffiliateBadge :: bool
  hasEmojiUsername :: bool
  isVeryShortTweet :: bool
  isShallowComment :: bool
  isDuplicateContent :: bool

text \<open>
  A reason is one of the strings pushed by the scorer: a fixed string, or a template
  literal, which is kept with the values it interpolates.
\<close>

datatype reason =
    Fixed string
  | HighAIVocabulary real  \<comment> \<open>\<open>High AI vocabulary usage (p%)\<close>, \<open>p\<close> shown to one decimal\<close>
  | AIPhrasePatterns "string list"  \<comment> \<open>\<open>AI phrase patterns detected: \<close> and the list joined\<close>
  | ExcessiveEmDashes nat
  | ExcessiveHashtags nat
  | ExcessiveMentions nat
  | ExcessiveEmojis nat
  | MultipleLinks nat

record score_result =
  confidence :: real
  reasons :: "reason list"

datatype feature_result = KnownAIBot | Features features

record analysis = score_result +
  isAI :: bool
  features :: feature_result

record stats =
  tweetsAnalyzed :: nat
  aiDetected :: nat
  confidenceSum :: real

record detector =
  patterns :: "pattern_config option"
  stats :: stats
  recentTweets :: "(string \<times> string option) list"
    \<comment> \<open>the Map from normalized text to user name, in insertion order, keys distinct\<close>


section \<open>Feature helpers\<close>

definition knownAIBots :: "string list" where
  "knownAIBots = [''grok'', ''chatgpt'', ''claude'', ''gemini'', ''copilot'', ''bard'',
                  ''metaai'', ''perplexity_ai'', ''anthropic'', ''openai'']"

definition maxCacheSize :: nat where
  \<comment> \<open>assigned once by the constructor, never written again\<close>
  "maxCacheSize = 500"

definition getDefaultPatterns :: pattern_config where
  "getDefaultPatterns =
     \<lparr>aiIndicatorWords = Some [''delve'', ''tapestry'', ''intricate'', ''nuanced'', ''multifaceted''],
      aiPhrasePatterns = Some [''it's not .+ it's .+'', ''as an AI''],
      spamIndicators = Some \<lparr>genericResponses = None, cryptoKeywords = None,
        adultContentKeywords = None, promotionalPhrases = None, suspiciousLinkPatterns = None\<rparr>\<rparr>"

definition loadPatterns :: "host \<Rightarrow> detector \<Rightarrow> detector" where
  "loadPatterns h d =
     d\<lparr>patterns := Some (case fetched h of Some p \<Rightarrow> p | None \<Rightarrow> getDefaultPatterns)\<rparr>"

definition countWords :: "string \<Rightarrow> nat" where
  "countWords text = length (filter (\<lambda>word. length word > 0) (splitOn isSpace text))"

definition wordBoundary :: string where
  "wordBoundary = [CHR 0x5C, CHR ''b'']"

fun countAIWordsLoop :: "host \<Rightarrow> string \<Rightarrow> nat \<Rightarrow> string list \<Rightarrow> error + nat" where
  "countAIWordsLoop h lowerText count [] = Inr count"
| "countAIWordsLoop h lowerText count (word # rest) =
     (let src = wordBoundary @ toLowerCase word @ wordBoundary in
      if rx_valid h src ''gi''
      then countAIWordsLoop h lowerText (count + rx_count h (RegExp src ''gi'') lowerText) rest
      else Inl SyntaxError)"

definition countAIWords :: "host \<Rightarrow> pattern_config option \<Rightarrow> string \<Rightarrow> error + nat" where
  "countAIWords h pats text =
     (case pats of
        None \<Rightarrow> Inr 0
      | Some p \<Rightarrow>
          (case aiIndicatorWords p of
             None \<Rightarrow> Inr 0
           | Some ws \<Rightarrow> countAIWordsLoop h (toLowerCase text) 0 ws))"

definition matchAIPhrases :: "host \<Rightarrow> pattern_config option \<Rightarrow> string \<Rightarrow> string list" where
  "matchAIPhrases h pats text =
     (case pats of
        None \<Rightarrow> []
      | Some p \<Rightarrow>
          (case aiPhrasePatterns p of
             None \<Rightarrow> []
           | Some ps \<Rightarrow>
               filter (\<lambda>pattern. rx_valid h pattern ''i''
                                  \<and> rx_test h (RegExp pattern ''i'') (toLowerCase text)) ps))"

definition countChar :: "char \<Rightarrow> string \<Rightarrow> nat" where
  \<comment> \<open>\<open>(text.match(/c/g) || []).length\<close> for a single character\<close>
  "countChar c text = length (filter (\<lambda>x. x = c) text)"

definition countEmojis :: "host \<Rightarrow> string \<Rightarrow> nat" where
  "countEmojis h text = rx_count h EmojiRe text"

definition hasExcessiveEmojis_of :: "host \<Rightarrow> string \<Rightarrow> bool" where
  "hasExcessiveEmojis_of h text =
     (let emojiCount = countEmojis h text;
          totalChars = length text;
          words = countWords text
      in
      if emojiCount > 3 \<and> words < 20 then True
      else if real emojiCount / real (max totalChars 1) > 0.1 \<and> emojiCount \<ge> 3 then True
      else if rx_test h EmojiTailRe text then True
      else if length (filter (\<lambda>line. length (trim line) > 0 \<and> rx_test h EmojiLineRe (trim line))
                        (splitOn (\<lambda>c. c = CHR 0x0A) text)) \<ge> 1 then True
      else if rx_test h EmojiRepeatRe text then True
      else False)"

definition hasGenericResponse_of :: "pattern_config option \<Rightarrow> string \<Rightarrow> bool" where
  "hasGenericResponse_of pats text =
     (let lowerText = trim (toLowerCase text) in
      case pats of
        None \<Rightarrow> False
      | Some p \<Rightarrow>
          (case spamIndicators p of
             None \<Rightarrow> False
           | Some sp \<Rightarrow>
               (case genericResponses sp of
                  None \<Rightarrow> False
                | Some rs \<Rightarrow>
                    list_ex (\<lambda>response.
                       let lowerResponse = toLowerCase response in
                         lowerText = lowerResponse \<or>
                         startsWith lowerText (lowerResponse @ '' '') \<or>
                         startsWith lowerText (lowerResponse @ ''!'') \<or>
                         startsWith lowerText (lowerResponse @ ''.'') \<or>
                         includesStr lowerText ('' '' @ lowerResponse @ '' '') \<or>
                         includesStr lowerText ('' '' @ lowerResponse @ ''!'') \<or>
                         includesStr lowerText ('' '' @ lowerResponse)) rs)))"

definition spamList ::
  "pattern_config option \<Rightarrow> (spam_indicators \<Rightarrow> string list option) \<Rightarrow> string list option" where
  \<comment> \<open>\<open>None\<close>: the early \<open>return false\<close>; a missing list reads as \<open>[]\<close>\<close>
  "spamList pats field =
     (case pats of
        None \<Rightarrow> None
      | Some p \<Rightarrow>
          (case spamIndicators p of
             None \<Rightarrow> None
           | Some sp \<Rightarrow> Some (case field sp of None \<Rightarrow> [] | Some l \<Rightarrow> l)))"

definition hasCryptoSpam_of :: "pattern_config option \<Rightarrow> string \<Rightarrow> bool" where
  "hasCryptoSpam_of pats text =
     (case spamList pats cryptoKeywords of
        None \<Rightarrow> False
      | Some ks \<Rightarrow>
          length (filter (\<lambda>keyword. includesStr text keyword
                    \<or> includesStr (toLowerCase text) (toLowerCase keyword)) ks) \<ge> 2)"

definition hasAdultContentPromo_of :: "pattern_config option \<Rightarrow> string \<Rightarrow> bool" where
  "hasAdultContentPromo_of pats text =
     (case spamList pats adultContentKeywords of
        None \<Rightarrow> False
      | Some ks \<Rightarrow> list_ex (\<lambda>keyword. includesStr (toLowerCase text) (toLowerCase keyword)) ks)"

definition hasPromotionalContent_of :: "pattern_config option \<Rightarrow> string \<Rightarrow> bool" where
  "hasPromotionalContent_of pats text =
     (case spamList pats promotionalPhrases of
        None \<Rightarrow> False
      | Some ps \<Rightarrow>
          length (filter (\<lambda>phrase. includesStr (toLowerCase text) (toLowerCase phrase)) ps) \<ge> 2)"

definition hasSuspiciousLinks_of :: "host \<Rightarrow> pattern_config option \<Rightarrow> string \<Rightarrow> bool" where
  "hasSuspiciousLinks_of h pats text =
     (case spamList pats suspiciousLinkPatterns of
        None \<Rightarrow> False
      | Some ps \<Rightarrow>
          list_ex (\<lambda>pattern. rx_valid h pattern ''i'' \<and> rx_test h (RegExp pattern ''i'') text) ps)"

definition isSentenceEnd :: "char \<Rightarrow> bool" where
  "isSentenceEnd c = (c = CHR ''.'' \<or> c = CHR ''!'' \<or> c = CHR ''?'')"

definition getAvgSentenceLength :: "string \<Rightarrow> real" where
  "getAvgSentenceLength text =
     (let sentences = filter (\<lambda>s. length (trim s) > 0) (splitOn isSentenceEnd text) in
      if length sentences = 0 then 0
      else
        real (foldl (\<lambda>sum sentence.
                sum + length (filter (\<lambda>w. length w > 0) (splitOn isSpace sentence))) 0 sentences)
        / real (length sentences))"

definition getVocabularyDiversity :: "string \<Rightarrow> real" where
  "getVocabularyDiversity text =
     (let words = filter (\<lambda>w. length w > 0) (splitOn isSpace (toLowerCase text)) in
      if length words = 0 then 0
      else real (length (remdups words)) / real (length words))"

definition formalWords :: "string list" where
  "formalWords = [''therefore'', ''furthermore'', ''moreover'', ''consequently'', ''thus'', ''hence'']"

definition contractions :: "string list" where
  "contractions = [''don't'', ''can't'', ''won't'', ''shouldn't'', ''wouldn't'']"

definition slang :: "string list" where
  "slang = [''lol'', ''lmao'', ''bruh'', ''ngl'', ''fr'', ''tbh'']"

text \<open>
  \<open>formalityScore += 0.15\<close> is a binary64 addition of the binary64 value of the literal;
  \<open>0\<close>, \<open>0.5\<close> and \<open>1\<close> are binary64 values as they stand.
\<close>

definition getFormalityScore :: "string \<Rightarrow> real" where
  "getFormalityScore text =
     (let lowerText = toLowerCase text;
          s1 = foldl (\<lambda>formalityScore word.
                 if includesStr lowerText word then toDouble (formalityScore + toDouble 0.15)
                 else formalityScore)
               0 formalWords;
          s2 = foldl (\<lambda>formalityScore word.
                 if includesStr lowerText word then toDouble (formalityScore - toDouble 0.1)
                 else formalityScore)
               s1 contractions;
          s3 = foldl (\<lambda>formalityScore word.
                 if includesStr lowerText word then toDouble (formalityScore - toDouble 0.15)
                 else formalityScore)
               s2 slang
      in max 0 (min 1 (toDouble (0.5 + s3))))"

definition isSuspiciousUsername :: "host \<Rightarrow> string \<Rightarrow> bool" where
  "isSuspiciousUsername h name = list_ex (\<lambda>i. rx_test h (SuspiciousNameRe i) name) [0..<5]"

definition hasEmojiInUsername :: "host \<Rightarrow> string \<Rightarrow> bool" where
  "hasEmojiInUsername h name = rx_test h EmojiNameRe name"

definition isShallowComment_of :: "host \<Rightarrow> string \<Rightarrow> bool" where
  "isShallowComment_of h text =
     (let normalized = trim (toLowerCase text);
          words = countWords text;
          textWithoutEmojis = trim (rx_strip h EmojiNameRe text)
      in
      if length textWithoutEmojis = 0 \<and> length text > 0 then True
      else if words = 1 \<and> length normalized < 15 then True
      else if words \<le> 4 \<and> length text < 30
        then list_ex (\<lambda>i. rx_test h (ShallowRe i) normalized) [0..<9]
      else False)"

definition countPresent :: "string list \<Rightarrow> string \<Rightarrow> nat" where
  \<comment> \<open>the loops that count the entries of a fixed list occurring in the lowercased text\<close>
  "countPresent terms text = length (filter (\<lambda>t. includesStr (toLowerCase text) t) terms)"

definition legalTerms :: "string list" where
  "legalTerms = [''jurisdiction'', ''federal law'', ''diplomatic immunity'', ''statute'',
     ''enforcement'', ''pursuant to'', ''hereby'', ''thereof'', ''whereby'',
     ''act of'', ''article'', ''section'', ''clause'', ''protocol'',
     ''authorities'', ''warrants'', ''illegal order'', ''federal authorities'']"

definition hasLegalJargon_of :: "string \<Rightarrow> bool" where
  "hasLegalJargon_of text = (countPresent legalTerms text \<ge> 3)"

definition hasMixedFormalEmoji_of :: "host \<Rightarrow> string \<Rightarrow> bool" where
  "hasMixedFormalEmoji_of h text =
     (if countWords text < 50 then False
      else if \<not> rx_test h EmojiNameRe text then False
      else getFormalityScore text > toDouble 0.6)"

definition sources :: "string list" where
  "sources = [''bbc'', ''cnn'', ''reuters'', ''al jazeera'', ''the guardian'', ''new york times'',
     ''washington post'', ''associated press'', ''bloomberg'', ''forbes'',
     ''wall street journal'', ''propphy'', ''socialrails'', ''times'', ''un data'',
     ''per '', ''as per'', ''according to'', ''sources like'']"

definition hasMultipleSources_of :: "string \<Rightarrow> bool" where
  "hasMultipleSources_of text = (countPresent sources text \<ge> 2)"

definition balancedPhrases :: "string list" where
  "balancedPhrases = [''in contrast'', ''however'', ''on the other hand'', ''while'',
     ''perspectives vary'', ''views vary'', ''both'', ''either'',
     ''some say'', ''others argue'', ''but also'', ''yet'']"

definition hasBalancedCommentary_of :: "string \<Rightarrow> bool" where
  "hasBalancedCommentary_of text = (countPresent balancedPhrases text \<ge> 2 \<and> countWords text > 30)"

definition hasConversationalHook_of :: "host \<Rightarrow> string \<Rightarrow> bool" where
  "hasConversationalHook_of h text = list_ex (\<lambda>i. rx_test h (HookRe i) text) [0..<7]"


section \<open>The duplicate tracker\<close>

definition normalizeText :: "string \<Rightarrow> string" where
  "normalizeText text =
     trim (filter (\<lambda>c. isWordChar c \<or> isSpace c) (collapseSpaces (toLowerCase text)))"

definition calculateSimilarity :: "string \<Rightarrow> string \<Rightarrow> real" where
  "calculateSimilarity text1 text2 =
     (let words1 = splitSpace text1; words2 = splitSpace text2 in
      if length words1 = 0 \<or> length words2 = 0 then 0
      else
        let set1 = remdups words1; set2 = remdups words2;
            intersection = filter (\<lambda>x. x \<in> set set2) set1;
            union = remdups (set1 @ set2)
        in real (length intersection) / real (length union))"

definition checkStructuralSimilarity :: "string \<Rightarrow> string \<Rightarrow> bool" where
  "checkStructuralSimilarity text1 text2 =
     (let words1 = splitSpace text1; words2 = splitSpace text2 in
      if abs (int (length words1) - int (length words2)) > 3 then False
      else if length words1 \<le> 8 \<and> length words2 \<le> 8
        then length (filter (\<lambda>w. w \<in> set words2) words1) \<ge> 4
      else
        let matchingSequences =
              length (filter (\<lambda>i. includesStr text2 (words1 ! i @ '' '' @ words1 ! (i + 1)))
                        [0 ..< length words1 - 1])
        in real matchingSequences \<ge> (real (length words1) - 1) * 0.5)"

fun checkDuplicateLoop ::
  "string \<Rightarrow> string option \<Rightarrow> (string \<times> string option) list \<Rightarrow> bool" where
  "checkDuplicateLoop normalized user [] = False"
| "checkDuplicateLoop normalized user ((cachedText, cachedUsername) # rest) =
     (if cachedUsername \<noteq> user \<and> cachedText = normalized then True
      else if cachedUsername \<noteq> user \<and> calculateSimilarity normalized cachedText > 0.60 then True
      else if cachedUsername \<noteq> user \<and> checkStructuralSimilarity normalized cachedText then True
      else checkDuplicateLoop normalized user rest)"

definition checkDuplicateContent :: "detector \<Rightarrow> string \<Rightarrow> string option \<Rightarrow> bool" where
  "checkDuplicateContent d text user = checkDuplicateLoop (normalizeText text) user (recentTweets d)"

text \<open>\<open>Map.prototype.set\<close>: a key already present keeps its place; a new key goes last.\<close>

fun mapSet :: "'k \<Rightarrow> 'v \<Rightarrow> ('k \<times> 'v) list \<Rightarrow> ('k \<times> 'v) list" where
  "mapSet k v [] = [(k, v)]"
| "mapSet k v ((k', v') # es) = (if k' = k then (k, v) # es else (k', v') # mapSet k v es)"

text \<open>
  The clean-up loop: \<open>n\<close> calls of \<open>iterator.next()\<close> on the key iterator, which walks the
  entries in insertion order. A key that is truthy (a non-empty string) is deleted; the
  empty string is falsy and its entry stays; past the last entry the key is
  \<open>undefined\<close> and nothing happens.
\<close>

fun evictOldest :: "nat \<Rightarrow> (string \<times> 'v) list \<Rightarrow> (string \<times> 'v) list" where
  "evictOldest 0 es = es"
| "evictOldest (Suc n) [] = []"
| "evictOldest (Suc n) ((key, v) # es) =
     (if key \<noteq> [] then evictOldest n es else (key, v) # evictOldest n es)"

definition addToCache :: "detector \<Rightarrow> string \<Rightarrow> string option \<Rightarrow> detector" where
  "addToCache d text user =
     (let entries = mapSet (normalizeText text) user (recentTweets d) in
      d\<lparr>recentTweets := (if length entries > maxCacheSize then evictOldest 100 entries else entries)\<rparr>)"

section \<open>The feature extractor\<close>

text \<open>
  An optional string used as a condition (\<open>metadata.username ? ... : false\<close>) holds when
  the string is present and not empty.
\<close>

fun extractFeatures ::
  "host \<Rightarrow> detector \<Rightarrow> text_arg \<Rightarrow> metadata \<Rightarrow> error + (features \<times> detector)" where
  "extractFeatures h d Null md = Inl TypeError"  \<comment> \<open>\<open>countWords(text)\<close> calls \<open>text.split\<close>\<close>
| "extractFeatures h d (Text text) md =
     (let totalWords' = countWords text;
          paragraphs = filter (\<lambda>p. length (trim p) > 0) (splitParagraphs text)
      in
      case countAIWords h (patterns d) text of
        Inl e \<Rightarrow> Inl e
      | Inr aiWords \<Rightarrow>
          Inr (\<lparr>aiWordCount = aiWords,
                totalWords = totalWords',
                aiPhraseMatches = matchAIPhrases h (patterns d) text,
                emDashCount = rx_count h EmDashRe text,
                colonCount = countChar CHR '':'' text,
                semicolonCount = countChar CHR '';'' text,
                quotationCount = countChar CHR 0x22 text,
                hasBulletPoints = rx_test h BulletRe text,
                hasNumberedList = rx_test h NumberedListRe text,
                paragraphCount = length paragraphs,
                isLongThread = (totalWords' > 100 \<and> length paragraphs > 2),
                hasCitations = rx_test h CitationRe text,
                hasLegalJargon = hasLegalJargon_of text,
                hasMixedFormalEmoji = hasMixedFormalEmoji_of h text,
                hasMultipleSources = hasMultipleSources_of text,
                hasBalancedCommentary = hasBalancedCommentary_of text,
                hasConversationalHook = hasConversationalHook_of h text,
                hashtagCount = rx_count h HashtagRe text,
                mentionCount = rx_count h MentionRe text,
                allCapsWords = rx_count h AllCapsRe text,
                emojiCount = countEmojis h text,
                hasExcessiveEmojis = hasExcessiveEmojis_of h text,
                hasGenericResponse = hasGenericResponse_of (patterns d) text,
                hasCryptoSpam = hasCryptoSpam_of (patterns d) text,
                hasAdultContentPromo = hasAdultContentPromo_of (patterns d) text,
                hasPromotionalContent = hasPromotionalContent_of (patterns d) text,
                linkCount = rx_count h LinkRe text,
                hasSuspiciousLinks = hasSuspiciousLinks_of h (patterns d) text,
                avgSentenceLength = getAvgSentenceLength text,
                vocabularyDiversity = getVocabularyDiversity text,
                formalityScore = getFormalityScore text,
                isNewAccount = (case accountAge md of None \<Rightarrow> False
                                | Some age \<Rightarrow> age \<noteq> 0 \<and> age < 90),
                hasSuspiciousName = (case username md of None \<Rightarrow> False
                                     | Some u \<Rightarrow> u \<noteq> [] \<and> isSuspiciousUsername h u),
                hasAffiliateBadge = (case hasAffiliateBadgeMeta md of None \<Rightarrow> False | Some b \<Rightarrow> b),
                hasEmojiUsername = (case displayName md of None \<Rightarrow> False
                                    | Some n \<Rightarrow> n \<noteq> [] \<and> hasEmojiInUsername h n),
                isVeryShortTweet = (totalWords' \<le> 3 \<and> length text < 30),
                isShallowComment = isShallowComment_of h text,
                isDuplicateContent = checkDuplicateContent d text (username md)\<rparr>,
               addToCache d text (username md)))"


section \<open>The scorer\<close>

record weight_table =
  aiWord :: real
  aiPhrase :: real
  punctuation :: real
  structureW :: real  \<comment> \<open>\<open>weights.structure\<close>\<close>
  spam :: real
  botSpam :: real
  stylometric :: real
  metadataW :: real  \<comment> \<open>\<open>weights.metadata\<close>\<close>

definition weights :: weight_table where
  "weights = \<lparr>aiWord = 0.25, aiPhrase = 0.30, punctuation = 0.15, structureW = 0.12,
               spam = 0.15, botSpam = 0.35, stylometric = 0.18, metadataW = 0.10\<rparr>"

text \<open>
  The scorer runs through its sections in order, adding to \<open>score\<close> and pushing onto
  \<open>reasons\<close>. Each section is written as what it adds and what it pushes; a rule
  \<open>if (c) { sub += inc; reasons.push(r) }\<close> is \<open>hit c inc [r]\<close>, and \<open>tally\<close> sums the
  increments and concatenates the reasons in order.
\<close>

definition hit :: "bool \<Rightarrow> real \<Rightarrow> reason list \<Rightarrow> real \<times> reason list" where
  "hit c inc rs = (if c then (inc, rs) else (0, []))"

definition tally :: "(real \<times> reason list) list \<Rightarrow> real \<times> reason list" where
  "tally parts = (sum_list (map fst parts), concat (map snd parts))"

definition weighted :: "real \<Rightarrow> real \<times> reason list \<Rightarrow> real \<times> reason list" where
  \<comment> \<open>\<open>score += Math.min(sub, 1) * weight\<close>\<close>
  "weighted w part = (min (fst part) 1 * w, snd part)"

definition aiWordSection :: "features \<Rightarrow> real \<times> reason list" where
  "aiWordSection f =
     (let aiWordRatio = real (aiWordCount f) / real (max (totalWords f) 1) in
      if aiWordRatio > 0.01
      then (min (aiWordRatio * 25) 1 * aiWord weights,
            if aiWordRatio > 0.02 then [HighAIVocabulary (aiWordRatio * 100)] else [])
      else (0, []))"

definition aiPhraseSection :: "features \<Rightarrow> real \<times> reason list" where
  "aiPhraseSection f =
     (if length (aiPhraseMatches f) > 0
      then (min (real (length (aiPhraseMatches f)) * 0.6) 1 * aiPhrase weights,
            [AIPhrasePatterns (take 2 (aiPhraseMatches f))])
      else (0, []))"

definition punctuationSection :: "features \<Rightarrow> real \<times> reason list" where
  "punctuationSection f = weighted (punctuation weights) (tally
     [hit (emDashCount f \<ge> 1) 0.5 [ExcessiveEmDashes (emDashCount f)],
      hit (colonCount f \<ge> 2) 0.4 [],
      hit (semicolonCount f \<ge> 1) 0.4 [],
      hit (quotationCount f \<ge> 3) 0.3 [Fixed ''Excessive quotation marks'']])"

definition structureSection :: "features \<Rightarrow> real \<times> reason list" where
  "structureSection f = weighted (structureW weights) (tally
     [hit (hasBulletPoints f) 0.5 [Fixed ''Bullet points in tweet''],
      hit (hasNumberedList f) 0.5 [Fixed ''Numbered list format''],
      hit (isLongThread f) 0.6 [Fixed ''Long multi-paragraph thread format''],
      hit (hasCitations f) 0.7 [Fixed ''Contains legal citations''],
      hit (hasLegalJargon f) 0.6 [Fixed ''Heavy legal/formal jargon''],
      hit (hasMixedFormalEmoji f) 0.7 [Fixed ''Formal text with emoji ending (bot pattern)''],
      hit (hasMultipleSources f) 0.8 [Fixed ''Multiple source citations (AI pattern)''],
      hit (hasBalancedCommentary f) 0.7 [Fixed ''Artificial both-sides balanced commentary''],
      hit (hasConversationalHook f) 0.6 [Fixed ''Question hook asking for engagement'']])"

definition spamSection :: "features \<Rightarrow> real \<times> reason list" where
  "spamSection f = weighted (spam weights) (tally
     [hit (hashtagCount f > 3) 0.5 [ExcessiveHashtags (hashtagCount f)],
      hit (mentionCount f > 2) 0.5 [ExcessiveMentions (mentionCount f)],
      hit (hasExcessiveEmojis f) 0.6 [ExcessiveEmojis (emojiCount f)],
      hit (hasGenericResponse f) 0.6 [Fixed ''Generic/bot-like response'']])"

definition botSpamSection :: "features \<Rightarrow> real \<times> reason list" where
  "botSpamSection f = weighted (botSpam weights) (tally
     [hit (hasCryptoSpam f) 0.6 [Fixed ''Crypto/financial spam detected''],
      hit (hasAdultContentPromo f) 0.7 [Fixed ''Adult content promotion detected''],
      hit (hasPromotionalContent f) 0.5 [Fixed ''Promotional/engagement bait''],
      hit (linkCount f \<ge> 2) 0.3 [MultipleLinks (linkCount f)],
      hit (hasSuspiciousLinks f) 0.4 [Fixed ''Suspicious link patterns'']])"

definition stylometricSection :: "features \<Rightarrow> real \<times> reason list" where
  "stylometricSection f = weighted (stylometric weights) (tally
     [hit (vocabularyDiversity f < 0.75) 0.5 [Fixed ''Low vocabulary diversity''],
      hit (formalityScore f > 0.5) 0.5 [Fixed ''High formality score'']])"

definition metadataSection :: "features \<Rightarrow> real \<times> reason list" where
  "metadataSection f = weighted (metadataW weights) (tally
     [hit (isNewAccount f) 0.4 [Fixed ''New account''],
      hit (hasSuspiciousName f) 0.6 [Fixed ''Suspicious username pattern''],
      hit (hasAffiliateBadge f) 0.7 [Fixed ''Account has affiliate badge''],
      hit (hasEmojiUsername f) 0.5 [Fixed ''Emoji-heavy username'']])"

definition flatSection :: "features \<Rightarrow> real \<times> reason list" where
  \<comment> \<open>low-effort and duplicate content: added to the score as they are\<close>
  "flatSection f = tally
     [hit (isVeryShortTweet f) 0.6 [Fixed ''Very short low-effort tweet''],
      hit (isShallowComment f) 0.7 [Fixed ''Shallow engagement-bait comment''],
      hit (isDuplicateContent f) 0.8 [Fixed ''Duplicate/copied content detected'']]"

definition calculateAIScore :: "features \<Rightarrow> score_result" where
  "calculateAIScore f =
     (let total = tally
            [aiWordSection f, aiPhraseSection f, punctuationSection f, structureSection f,
             spamSection f, botSpamSection f, stylometricSection f, metadataSection f,
             flatSection f]
      in \<lparr>confidence = min (fst total) 1, reasons = take 5 (snd total)\<rparr>)"

section \<open>The detector\<close>

definition newDetector :: detector where
  \<comment> \<open>the constructor; the patterns are loaded by the first \<open>analyze\<close>\<close>
  "newDetector = \<lparr>patterns = None,
                   stats = \<lparr>tweetsAnalyzed = 0, aiDetected = 0, confidenceSum = 0\<rparr>,
                   recentTweets = []\<rparr>"

definition normalizeUsername :: "string \<Rightarrow> string" where
  \<comment> \<open>\<open>username.toLowerCase().replace(/[@\s]/g, '')\<close>\<close>
  "normalizeUsername u = filter (\<lambda>c. \<not> (c = CHR ''@'' \<or> isSpace c)) (toLowerCase u)"

definition isKnownBot :: "string \<Rightarrow> bool" where
  "isKnownBot u =
     (let name = normalizeUsername u in
      list_ex (\<lambda>bot. includesStr name bot \<or> includesStr bot name) knownAIBots)"

definition ensurePatterns :: "host \<Rightarrow> detector \<Rightarrow> detector" where
  \<comment> \<open>\<open>if (!this.patterns) await this.loadPatterns()\<close>\<close>
  "ensurePatterns h d = (if patterns d = None then loadPatterns h d else d)"

definition countDetection :: "real \<Rightarrow> stats \<Rightarrow> stats" where
  \<comment> \<open>\<open>aiDetected++; confidenceSum += c\<close>\<close>
  "countDetection c st = st\<lparr>aiDetected := aiDetected st + 1, confidenceSum := confidenceSum st + c\<rparr>"

definition countTweet :: "stats \<Rightarrow> stats" where
  "countTweet st = st\<lparr>tweetsAnalyzed := tweetsAnalyzed st + 1\<rparr>"

definition analyze ::
  "host \<Rightarrow> detector \<Rightarrow> text_arg \<Rightarrow> metadata \<Rightarrow> error + (analysis \<times> detector)" where
  "analyze h d0 text md =
     (let d = ensurePatterns h d0 in
      if (case username md of None \<Rightarrow> False | Some u \<Rightarrow> u \<noteq> [] \<and> isKnownBot u)
      then Inr (\<lparr>confidence = 1, reasons = [Fixed ''Official AI bot account''],
                  isAI = True, features = KnownAIBot\<rparr>,
                d\<lparr>stats := countDetection 1 (countTweet (stats d))\<rparr>)
      else
        case extractFeatures h d text md of
          Inl e \<Rightarrow> Inl e
        | Inr (f, d') \<Rightarrow>
            let score = calculateAIScore f;
                flagged = (length (reasons score) > 0 \<or> confidence score > 0)
            in Inr (\<lparr>confidence = confidence score, reasons = reasons score,
                       isAI = flagged, features = Features f\<rparr>,
                     d'\<lparr>stats := (if flagged then countDetection (confidence score)
                                                      (countTweet (stats d'))
                                   else countTweet (stats d'))\<rparr>))"


definition avgConfidence :: "detector \<Rightarrow> real" where
  "avgConfidence d =
     (if aiDetected (stats d) > 0 then confidenceSum (stats d) / real (aiDetected (stats d)) else 0)"

definition detectionRate :: "detector \<Rightarrow> real" where
  "detectionRate d =
     (if tweetsAnalyzed (stats d) > 0
      then real (aiDetected (stats d)) / real (tweetsAnalyzed (stats d)) else 0)"


text \<open>A run of analyses, each on the state the one before it left.\<close>

fun analyzeAll ::
  "host \<Rightarrow> detector \<Rightarrow> (text_arg \<times> metadata) list \<Rightarrow> error + (analysis list \<times> detector)" where
  "analyzeAll h d [] = Inr ([], d)"
| "analyzeAll h d ((text, md) # rest) =
     (case analyze h d text md of
        Inl e \<Rightarrow> Inl e
      | Inr (r, d') \<Rightarrow>
          (case analyzeAll h d' rest of
             Inl e \<Rightarrow> Inl e
           | Inr (rs, d'') \<Rightarrow> Inr (r # rs, d'')))"

definition duplicateFlag :: "analysis \<Rightarrow> bool option" where
  \<comment> \<open>\<open>result.features.isDuplicateContent\<close>; the known-bot result has no such property\<close>
  "duplicateFlag r = (case features r of KnownAIBot \<Rightarrow> None | Features f \<Rightarrow> Some (isDuplicateContent f))"

text \<open>
  The engine used in the closed examples: it finds no match and accepts every pattern
  source, and the configuration resource cannot be fetched. It agrees with the runtime on
  the texts and names of those examples, none of which holds a match of any pattern.
\<close>

definition quietHost :: host where
  "quietHost = \<lparr>rx_test = (\<lambda>re s. False), rx_count = (\<lambda>re s. 0), rx_strip = (\<lambda>re s. s),
                 rx_valid = (\<lambda>src flags. True), fetched = None\<rparr>"


section \<open>Notions of the specification\<close>

text \<open>
  The formality score in the specification's words: one half, plus 0.15 for each of the
  formal connectives found in the lowercased text, minus 0.1 for each contraction found,
  minus 0.15 for each slang token found, clamped to the unit interval. An item is found
  or not, however often it occurs.
\<close>

definition foundIn :: "string \<Rightarrow> string list \<Rightarrow> nat" where
  "foundIn lowerText items = length (filter (\<lambda>item. includesStr lowerText item) items)"

definition formalityBySpec :: "string \<Rightarrow> real" where
  "formalityBySpec text =
     (let lowerText = toLowerCase text in
      max 0 (min 1 (0.5 + 0.15 * real (foundIn lowerText formalWords)
                        - 0.1 * real (foundIn lowerText contractions)
                        - 0.15 * real (foundIn lowerText slang))))"

text \<open>
  The score of the code as a function of the three counts alone: the binary64 sum after
  \<open>n\<close> additions of 0.15, \<open>m\<close> subtractions of 0.1 and \<open>k\<close> subtractions of 0.15,
  in this order, added to one half and clamped. \<open>formulaOfCounts\<close> is the exact value of
  the specification's formula at the same counts.
\<close>

definition formalityOfCounts :: "nat \<Rightarrow> nat \<Rightarrow> nat \<Rightarrow> real" where
  "formalityOfCounts n m k =
     max 0 (min 1 (toDouble (0.5 +
       ((\<lambda>s. toDouble (s - toDouble 0.15)) ^^ k)
         (((\<lambda>s. toDouble (s - toDouble 0.1)) ^^ m)
            (((\<lambda>s. toDouble (s + toDouble 0.15)) ^^ n) 0)))))"

definition formulaOfCounts :: "nat \<Rightarrow> nat \<Rightarrow> nat \<Rightarrow> real" where
  "formulaOfCounts n m k = max 0 (min 1 (0.5 + 0.15 * real n - 0.1 * real m - 0.15 * real k))"

text \<open>
  Structural similarity in the specification's words: the words of a normalized text are
  its pieces between single spaces; two texts share the distinct words that occur in both;
  the adjacent word-bigrams of the probe are its pairs of neighbouring words joined by a
  space, and one appears verbatim when the cached text contains it.
\<close>

definition wordsOf :: "string \<Rightarrow> string list" where
  "wordsOf normalized = splitSpace normalized"

definition sharedWords :: "string \<Rightarrow> string \<Rightarrow> nat" where
  "sharedWords probe cached = card (set (wordsOf probe) \<inter> set (wordsOf cached))"

definition bigrams :: "string list \<Rightarrow> string list" where
  "bigrams ws = map (\<lambda>(a, b). a @ '' '' @ b) (zip ws (tl ws))"

definition bigramsFound :: "string \<Rightarrow> string \<Rightarrow> nat" where
  "bigramsFound probe cached =
     length (filter (\<lambda>pair. includesStr cached pair) (bigrams (wordsOf probe)))"

definition similarLength :: "string \<Rightarrow> string \<Rightarrow> bool" where
  \<comment> \<open>the word counts differ by at most three\<close>
  "similarLength probe cached =
     (abs (int (length (wordsOf probe)) - int (length (wordsOf cached))) \<le> 3)"

text \<open>
  The tracker is a Map that the earlier calls have kept within its capacity: its keys are
  distinct and there are at most \<open>maxCacheSize\<close> of them.
\<close>

definition cacheInvariant :: "detector \<Rightarrow> bool" where
  "cacheInvariant d =
     (distinct (map fst (recentTweets d)) \<and> length (recentTweets d) \<le> maxCacheSize)"


section \<open>Inputs of the closed examples\<close>

definition user :: "string \<Rightarrow> metadata" where
  \<comment> \<open>the metadata of a post of which only the handle is known\<close>
  "user name = \<lparr>username = Some name, displayName = None, accountAge = None,
                 hasAffiliateBadgeMeta = None\<rparr>"

definition flags :: "error + (analysis list \<times> detector) \<Rightarrow> error + bool option list" where
  \<comment> \<open>the duplicate flags of a run's results\<close>
  "flags run = (case run of Inl e \<Rightarrow> Inl e | Inr (rs, d) \<Rightarrow> Inr (map duplicateFlag rs))"

definition noSignals :: features where
  "noSignals =
     \<lparr>aiWordCount = 0, totalWords = 5, aiPhraseMatches = [], emDashCount = 0, colonCount = 0,
      semicolonCount = 0, quotationCount = 0, hasBulletPoints = False, hasNumberedList = False,
      paragraphCount = 1, isLongThread = False, hasCitations = False, hasLegalJargon = False,
      hasMixedFormalEmoji = False, hasMultipleSources = False, hasBalancedCommentary = False,
      hasConversationalHook = False, hashtagCount = 0, mentionCount = 0, allCapsWords = 0,
      emojiCount = 0, hasExcessiveEmojis = False, hasGenericResponse = False,
      hasCryptoSpam = False, hasAdultContentPromo = False, hasPromotionalContent = False,
      linkCount = 0, hasSuspiciousLinks = False, avgSentenceLength = 5, vocabularyDiversity = 1,
      formalityScore = 0.5, isNewAccount = False, hasSuspiciousName = False,
      hasAffiliateBadge = False, hasEmojiUsername = False, isVeryShortTweet = False,
      isShallowComment = False, isDuplicateContent = False\<rparr>"

definition manySignals :: features where
  "manySignals = noSignals\<lparr>hasBulletPoints := True, hasNumberedList := True, hasCitations := True,
     hashtagCount := 4, isVeryShortTweet := True, isShallowComment := True,
     isDuplicateContent := True\<rparr>"

text \<open>
  Five hundred and one posts whose normalized texts differ: the first is \<open>!\<close>, which
  normalizes to the empty string, the others are \<open>a\<close>, \<open>aa\<close>, \<open>aaa\<close> and so on.
\<close>

definition letters :: "nat \<Rightarrow> string" where
  "letters n = replicate n CHR ''a''"

definition manyPosts :: "string list" where
  "manyPosts = ''!'' # map letters [1 ..< 501]"

fun recordAll :: "detector \<Rightarrow> string list \<Rightarrow> string option \<Rightarrow> detector" where
  "recordAll d [] who = d"
| "recordAll d (text # rest) who = recordAll (addToCache d text who) rest who"

section \<open>The scorer and the facade\<close>

lemma hit_nonneg: "0 \<le> inc \<Longrightarrow> 0 \<le> fst (hit c inc rs)"
  by (simp add: hit_def)

lemma tally_nonneg: "list_all (\<lambda>p. 0 \<le> fst p) parts \<Longrightarrow> 0 \<le> fst (tally parts)"
  by (induction parts) (simp_all add: tally_def)

lemma weighted_nonneg: "0 \<le> w \<Longrightarrow> 0 \<le> fst part \<Longrightarrow> 0 \<le> fst (weighted w part)"
  by (simp add: weighted_def)

lemma aiWordSection_nonneg: "0 \<le> fst (aiWordSection f)"
  by (simp add: aiWordSection_def Let_def weights_def)

lemma aiPhraseSection_nonneg: "0 \<le> fst (aiPhraseSection f)"
  by (simp add: aiPhraseSection_def weights_def)

lemma punctuationSection_nonneg: "0 \<le> fst (punctuationSection f)"
  unfolding punctuationSection_def
  by (intro weighted_nonneg tally_nonneg) (simp_all add: weights_def hit_nonneg)

lemma structureSection_nonneg: "0 \<le> fst (structureSection f)"
  unfolding structureSection_def
  by (intro weighted_nonneg tally_nonneg) (simp_all add: weights_def hit_nonneg)

lemma spamSection_nonneg: "0 \<le> fst (spamSection f)"
  unfolding spamSection_def
  by (intro weighted_nonneg tally_nonneg) (simp_all add: weights_def hit_nonneg)

lemma botSpamSection_nonneg: "0 \<le> fst (botSpamSection f)"
  unfolding botSpamSection_def
  by (intro weighted_nonneg tally_nonneg) (simp_all add: weights_def hit_nonneg)

lemma stylometricSection_nonneg: "0 \<le> fst (stylometricSection f)"
  unfolding stylometricSection_def
  by (intro weighted_nonneg tally_nonneg) (simp_all add: weights_def hit_nonneg)

lemma metadataSection_nonneg: "0 \<le> fst (metadataSection f)"
  unfolding metadataSection_def
  by (intro weighted_nonneg tally_nonneg) (simp_all add: weights_def hit_nonneg)

lemma flatSection_nonneg: "0 \<le> fst (flatSection f)"
  unfolding flatSection_def
  by (intro tally_nonneg) (simp_all add: hit_nonneg)

lemmas section_nonneg = aiWordSection_nonneg aiPhraseSection_nonneg punctuationSection_nonneg
  structureSection_nonneg spamSection_nonneg botSpamSection_nonneg stylometricSection_nonneg
  metadataSection_nonneg flatSection_nonneg

lemma calculateAIScore_range:
  "0 \<le> confidence (calculateAIScore f) \<and> confidence (calculateAIScore f) \<le> 1
   \<and> length (reasons (calculateAIScore f)) \<le> 5"
proof -
  have "0 \<le> fst (tally [aiWordSection f, aiPhraseSection f, punctuationSection f,
      structureSection f, spamSection f, botSpamSection f, stylometricSection f,
      metadataSection f, flatSection f])"
    by (intro tally_nonneg) (simp add: section_nonneg)
  then show ?thesis
    by (simp add: calculateAIScore_def Let_def)
qed

lemma ensurePatterns_frame:
  "recentTweets (ensurePatterns h d) = recentTweets d" "stats (ensurePatterns h d) = stats d"
  by (simp_all add: ensurePatterns_def loadPatterns_def)

lemma addToCache_frame:
  "stats (addToCache d text who) = stats d" "patterns (addToCache d text who) = patterns d"
  by (simp_all add: addToCache_def Let_def)

lemma extractFeatures_Inr:
  assumes "extractFeatures h d text md = Inr (f, d')"
  shows "\<exists>t. text = Text t \<and> d' = addToCache d t (username md)
           \<and> isDuplicateContent f = checkDuplicateContent d t (username md)
           \<and> totalWords f = countWords t
           \<and> avgSentenceLength f = getAvgSentenceLength t
           \<and> vocabularyDiversity f = getVocabularyDiversity t
           \<and> formalityScore f = getFormalityScore t"
proof (cases "text")
  case Null
  with assms show ?thesis by simp
next
  case (Text t)
  with assms show ?thesis
    by (auto simp: Let_def split: sum.splits)
qed

text \<open>The two ways \<open>analyze\<close> returns: the known-bot return and the generic pipeline.\<close>

lemma analyze_known_bot:
  assumes "username md = Some u" and "u \<noteq> []" and "isKnownBot u"
  shows "analyze h d text md =
           Inr (\<lparr>confidence = 1, reasons = [Fixed ''Official AI bot account''],
                  isAI = True, features = KnownAIBot\<rparr>,
                (ensurePatterns h d)\<lparr>stats := countDetection 1 (countTweet (stats d))\<rparr>)"
  using assms by (simp add: analyze_def Let_def ensurePatterns_frame)

lemma analyze_Inr:
  assumes "analyze h d text md = Inr (r, d')"
  shows "(r = \<lparr>confidence = 1, reasons = [Fixed ''Official AI bot account''],
                isAI = True, features = KnownAIBot\<rparr>
          \<and> d' = (ensurePatterns h d)\<lparr>stats := countDetection 1 (countTweet (stats d))\<rparr>)
       \<or> (\<exists>f e. extractFeatures h (ensurePatterns h d) text md = Inr (f, e)
             \<and> r = \<lparr>confidence = confidence (calculateAIScore f),
                     reasons = reasons (calculateAIScore f),
                     isAI = (reasons (calculateAIScore f) \<noteq> [] \<or> 0 < confidence (calculateAIScore f)),
                     features = Features f\<rparr>
             \<and> d' = e\<lparr>stats := (if isAI r then countDetection (confidence r) (countTweet (stats d))
                                   else countTweet (stats d))\<rparr>)"
proof (cases "case username md of None \<Rightarrow> False | Some u \<Rightarrow> u \<noteq> [] \<and> isKnownBot u")
  case True
  with assms show ?thesis
    by (simp add: analyze_def Let_def ensurePatterns_frame)
next
  case False
  with assms obtain f e where ex: "extractFeatures h (ensurePatterns h d) text md = Inr (f, e)"
    by (auto simp: analyze_def Let_def split: sum.splits)
  from extractFeatures_Inr [OF ex] have "stats e = stats d"
    by (auto simp: addToCache_frame ensurePatterns_frame)
  with assms False ex show ?thesis
    by (auto simp: analyze_def Let_def)
qed

text \<open>
  Claim C1. Whatever the features, the score result of \<open>calculateAIScore\<close> has a
  confidence between 0 and 1 and at most five reasons; so has every result that
  \<open>analyze\<close> returns, on the known-bot path as on the generic one.
\<close>

theorem confidence_and_reasons_bounded:
  "(0 \<le> confidence (calculateAIScore f) \<and> confidence (calculateAIScore f) \<le> 1
      \<and> length (reasons (calculateAIScore f)) \<le> 5)
   \<and> (analyze h d text md = Inr (r, d') \<longrightarrow>
        0 \<le> confidence r \<and> confidence r \<le> 1 \<and> length (reasons r) \<le> 5)"
proof (intro conjI impI)
  assume "analyze h d text md = Inr (r, d')"
  from analyze_Inr [OF this] calculateAIScore_range
  show "0 \<le> confidence r" "confidence r \<le> 1" "length (reasons r) \<le> 5"
    by auto
qed (simp_all add: calculateAIScore_range)

text \<open>
  Claim C4. In every result that \<open>analyze\<close> returns, \<open>isAI\<close> holds exactly when the
  list of reasons is not empty or the confidence is positive.
\<close>

theorem isAI_iff_any_signal:
  assumes "analyze h d text md = Inr (r, d')"
  shows "isAI r = (reasons r \<noteq> [] \<or> 0 < confidence r)"
  using analyze_Inr [OF assms] by auto


text \<open>Two closed runs of \<open>analyze\<close> on a fresh detector, evaluated.\<close>

lemma run_nice:
  "case analyze quietHost newDetector (Text ''Nice!'') (user ''alice'') of
     Inl e \<Rightarrow> False
   | Inr (r, d') \<Rightarrow>
       isAI r \<and> confidence r = 1
       \<and> reasons r = [Fixed ''Very short low-effort tweet'', Fixed ''Shallow engagement-bait comment'']
       \<and> stats d' = \<lparr>tweetsAnalyzed = 1, aiDetected = 1, confidenceSum = 1\<rparr>
       \<and> recentTweets d' = [(''nice'', Some ''alice'')]"
  by code_simp


theorem confidence_and_reasons_bounded_witness:
  "confidence (calculateAIScore manySignals) = 1
   \<and> length (reasons (calculateAIScore manySignals)) = 5
   \<and> (case analyze quietHost newDetector (Text ''Nice!'') (user ''alice'') of
         Inl e \<Rightarrow> False
       | Inr (r, d') \<Rightarrow> confidence r = 1 \<and> 0 \<le> confidence r \<and> confidence r \<le> 1
                         \<and> length (reasons r) = 2 \<and> length (reasons r) \<le> 5)"
proof -
  have score: "confidence (calculateAIScore manySignals) = 1
      \<and> length (reasons (calculateAIScore manySignals)) = 5"
    by code_simp
  from run_nice obtain r d' where
    eq: "analyze quietHost newDetector (Text ''Nice!'') (user ''alice'') = Inr (r, d')"
    and vals: "confidence r = 1" "length (reasons r) = 2"
    by (auto split: sum.splits)
  from confidence_and_reasons_bounded
    [of manySignals quietHost newDetector "Text ''Nice!''" "user ''alice''" r d'] eq
  have "0 \<le> confidence r \<and> confidence r \<le> 1 \<and> length (reasons r) \<le> 5"
    by blast
  with score eq vals show ?thesis by simp
qed

theorem isAI_iff_any_signal_witness:
  "case analyze quietHost newDetector (Text ''Nice!'') (user ''alice'') of
     Inl e \<Rightarrow> False
   | Inr (r, d') \<Rightarrow> isAI r \<and> confidence r = 1 \<and> length (reasons r) = 2
                     \<and> isAI r = (reasons r \<noteq> [] \<or> 0 < confidence r)"
proof -
  from run_nice obtain r d' where
    eq: "analyze quietHost newDetector (Text ''Nice!'') (user ''alice'') = Inr (r, d')"
    and vals: "isAI r" "confidence r = 1" "length (reasons r) = 2"
    by (auto split: sum.splits)
  from isAI_iff_any_signal [OF eq] eq vals show ?thesis by simp
qed



text \<open>
  Claim C2. When the user name of the metadata normalizes to \<open>grok\<close> (lowercased, \<open>@\<close> and
  white space removed), \<open>analyze\<close> returns confidence 1, the single reason
  \<open>Official AI bot account\<close> and \<open>isAI\<close>, whatever the text; the extractor and the scorer
  do not run: the result carries no feature vector and the tracker is as before.
\<close>

theorem grok_is_known_bot:
  assumes "username md = Some u" and "normalizeUsername u = ''grok''"
  shows "\<exists>d'. analyze h d text md =
                 Inr (\<lparr>confidence = 1, reasons = [Fixed ''Official AI bot account''],
                        isAI = True, features = KnownAIBot\<rparr>, d')
              \<and> recentTweets d' = recentTweets d
              \<and> stats d' = countDetection 1 (countTweet (stats d))"
proof -
  from assms(2) have "u \<noteq> []"
    by (auto simp: normalizeUsername_def toLowerCase_def)
  moreover from assms(2) have "isKnownBot u"
    by (simp add: isKnownBot_def knownAIBots_def)
  ultimately show ?thesis
    using analyze_known_bot [OF assms(1)] by (simp add: ensurePatterns_frame)
qed

theorem grok_is_known_bot_witness:
  "normalizeUsername ''@GroK '' = ''grok''
   \<and> (\<exists>d'. analyze quietHost newDetector Null (user ''@GroK '') =
                 Inr (\<lparr>confidence = 1, reasons = [Fixed ''Official AI bot account''],
                        isAI = True, features = KnownAIBot\<rparr>, d')
              \<and> recentTweets d' = recentTweets newDetector
              \<and> stats d' = \<lparr>tweetsAnalyzed = 1, aiDetected = 1, confidenceSum = 1\<rparr>)"
proof -
  have n: "normalizeUsername ''@GroK '' = ''grok''"
    by code_simp
  have u: "username (user ''@GroK '') = Some ''@GroK ''"
    by (simp add: user_def)
  from grok_is_known_bot [OF u n, of quietHost newDetector Null] n show ?thesis
    by (simp add: countDetection_def countTweet_def newDetector_def)
qed

text \<open>
  Claim C10. The membership test also asks whether a bot handle contains the user name.
  So every non-empty user name whose normalized form is a substring of a known handle is
  taken for a known bot, with confidence 1; among them the names that normalize to the
  empty string, such as \<open>@\<close> or a blank name.
\<close>

theorem substring_of_handle_is_known_bot:
  assumes "username md = Some u" and "u \<noteq> []"
    and "list_ex (\<lambda>bot. includesStr bot (normalizeUsername u)) knownAIBots"
  shows "\<exists>d'. analyze h d text md =
                 Inr (\<lparr>confidence = 1, reasons = [Fixed ''Official AI bot account''],
                        isAI = True, features = KnownAIBot\<rparr>, d')
              \<and> recentTweets d' = recentTweets d
              \<and> stats d' = countDetection 1 (countTweet (stats d))"
proof -
  from assms(3) have "isKnownBot u"
    by (auto simp: isKnownBot_def Let_def list_ex_iff)
  with analyze_known_bot [OF assms(1,2)] show ?thesis
    by (simp add: ensurePatterns_frame)
qed

theorem substring_of_handle_is_known_bot_witness:
  "normalizeUsername ''@'' = [] \<and> normalizeUsername ''ai'' = ''ai''
   \<and> (\<exists>d'. analyze quietHost newDetector (Text ''just had lunch with mom'') (user ''@'') =
                 Inr (\<lparr>confidence = 1, reasons = [Fixed ''Official AI bot account''],
                        isAI = True, features = KnownAIBot\<rparr>, d')
              \<and> recentTweets d' = []
              \<and> stats d' = \<lparr>tweetsAnalyzed = 1, aiDetected = 1, confidenceSum = 1\<rparr>)
   \<and> (\<exists>d'. analyze quietHost newDetector (Text ''just had lunch with mom'') (user ''ai'') =
                 Inr (\<lparr>confidence = 1, reasons = [Fixed ''Official AI bot account''],
                        isAI = True, features = KnownAIBot\<rparr>, d')
              \<and> recentTweets d' = []
              \<and> stats d' = \<lparr>tweetsAnalyzed = 1, aiDetected = 1, confidenceSum = 1\<rparr>)"
proof -
  have n: "normalizeUsername ''@'' = []" "normalizeUsername ''ai'' = ''ai''"
    by code_simp+
  have a: "list_ex (\<lambda>bot. includesStr bot (normalizeUsername ''@'')) knownAIBots"
    and b: "list_ex (\<lambda>bot. includesStr bot (normalizeUsername ''ai'')) knownAIBots"
    by code_simp+
  have u: "username (user ''@'') = Some ''@''" "username (user ''ai'') = Some ''ai''"
    by (simp_all add: user_def)
  from substring_of_handle_is_known_bot [OF u(1) _ a, of quietHost newDetector]
    substring_of_handle_is_known_bot [OF u(2) _ b, of quietHost newDetector] n
  show ?thesis
    by (simp add: countDetection_def countTweet_def newDetector_def)
qed
section \<open>The formality score\<close>

subsection \<open>The score as a function of three counts\<close>

lemma foldl_conditional:
  "foldl (\<lambda>acc w. if P w then g acc else acc) a ws = (g ^^ length (filter P ws)) a"
  by (induction ws arbitrary: a) (simp_all add: funpow_swap1)

lemma getFormalityScore_counts:
  "getFormalityScore text =
     formalityOfCounts (foundIn (toLowerCase text) formalWords)
       (foundIn (toLowerCase text) contractions) (foundIn (toLowerCase text) slang)"
  unfolding getFormalityScore_def formalityOfCounts_def foundIn_def Let_def foldl_conditional
  by (rule refl)

lemma formalityBySpec_counts:
  "formalityBySpec text =
     formulaOfCounts (foundIn (toLowerCase text) formalWords)
       (foundIn (toLowerCase text) contractions) (foundIn (toLowerCase text) slang)"
  unfolding formalityBySpec_def formulaOfCounts_def Let_def
  by (rule refl)

lemma foundIn_le: "foundIn lowerText items \<le> length items"
  by (simp add: foundIn_def)

subsection \<open>The error of one rounding\<close>

lemma roundHalfEven_error: "\<bar>real_of_int (roundHalfEven y) - y\<bar> \<le> 1 / 2"
proof -
  have "real_of_int \<lfloor>y\<rfloor> \<le> y" and "y < real_of_int \<lfloor>y\<rfloor> + 1"
    by linarith+
  then show ?thesis
    by (auto simp: roundHalfEven_def nearest_def)
qed

lemma binadeFrom_le: "a < 2 \<Longrightarrow> binadeFrom steps a e \<le> e"
proof (induction steps arbitrary: a e)
  case 0
  show ?case by simp
next
  case (Suc steps)
  show ?case
  proof (cases "a < 1")
    case True
    then have "binadeFrom steps (2 * a) (e - 1) \<le> e - 1"
      by (intro Suc.IH) simp
    with True show ?thesis by simp
  next
    case False
    with Suc.prems show ?thesis by simp
  qed
qed

lemma pow2_pos: "0 < pow2 k"
  by (simp add: pow2_def)

lemma pow2_small: "k \<le> - 52 \<Longrightarrow> pow2 k \<le> 1 / 2 ^ 52"
proof -
  assume k: "k \<le> - 52"
  then have "(2::real) ^ 52 \<le> 2 ^ nat (- k)"
    by (intro power_increasing) simp_all
  with k show ?thesis
    by (simp add: pow2_def frac_le)
qed

lemma quantumOf_small:
  assumes "a < 2"
  shows "0 < quantumOf a \<and> quantumOf a \<le> 1 / 2 ^ 52"
proof -
  from binadeFrom_le [OF assms, of 2100 0] have "binade a \<le> 0"
    by (simp add: binade_def)
  then have "max (binade a - 52) (- 1074) \<le> - 52"
    by simp
  then have "pow2 (max (binade a - 52) (- 1074)) \<le> 1 / 2 ^ 52"
    by (rule pow2_small)
  then show ?thesis
    by (simp only: quantumOf_def pow2_pos simp_thms)
qed

lemma roundTo_error:
  assumes "0 < q"
  shows "\<bar>roundTo q a - a\<bar> \<le> q / 2"
proof -
  have "roundTo q a - a = (real_of_int (roundHalfEven (a / q)) - a / q) * q"
    using assms by (simp add: roundTo_def field_simps)
  then have "\<bar>roundTo q a - a\<bar> = \<bar>real_of_int (roundHalfEven (a / q)) - a / q\<bar> * q"
    using assms by (simp add: abs_mult)
  also have "\<dots> \<le> 1 / 2 * q"
    using roundHalfEven_error [of "a / q"] assms by (intro mult_right_mono) simp_all
  finally show ?thesis by simp
qed

text \<open>Below 2 in magnitude, rounding to binary64 moves a number by at most \<open>2^-53\<close>.\<close>

lemma toDouble_error:
  assumes "\<bar>x\<bar> < 2"
  shows "\<bar>toDouble x - x\<bar> \<le> 1 / 2 ^ 53"
proof (cases "x = 0")
  case True
  then show ?thesis by (simp add: toDouble_def)
next
  case False
  let ?q = "quantumOf \<bar>x\<bar>"
  from quantumOf_small [OF assms] have q: "0 < ?q" "?q \<le> 1 / 2 ^ 52"
    by simp_all
  have "sgn x * (roundTo ?q \<bar>x\<bar> - \<bar>x\<bar>) = sgn x * roundTo ?q \<bar>x\<bar> - sgn x * \<bar>x\<bar>"
    by (rule right_diff_distrib)
  also have "\<dots> = toDouble x - x"
    using False by (simp only: toDouble_def mult_sgn_abs if_False)
  finally have "toDouble x - x = sgn x * (roundTo ?q \<bar>x\<bar> - \<bar>x\<bar>)"
    by (rule sym)
  then have "\<bar>toDouble x - x\<bar> = \<bar>roundTo ?q \<bar>x\<bar> - \<bar>x\<bar>\<bar>"
    using False by (simp add: abs_mult abs_sgn_eq)
  also have "\<dots> \<le> ?q / 2"
    using q(1) by (rule roundTo_error)
  also have "\<dots> \<le> 1 / 2 ^ 53"
    using q(2) by simp
  finally show ?thesis .
qed

subsection \<open>The error of the running sum\<close>

text \<open>
  One pass of a loop body, \<open>formalityScore += c\<close> or \<open>formalityScore -= c\<close>, rounds the
  literal and the sum: it adds at most \<open>2 * 2^-53\<close> to the distance from the exact sum.
\<close>

lemma add_step:
  assumes "\<bar>s - t\<bar> \<le> err" and "err \<le> 1 / 100" and "\<bar>t\<bar> \<le> 9 / 5" and "\<bar>c\<bar> \<le> 3 / 20"
  shows "\<bar>toDouble (s + toDouble c) - (t + c)\<bar> \<le> err + 2 / 2 ^ 53"
proof -
  from assms(4) have c: "\<bar>toDouble c - c\<bar> \<le> 1 / 2 ^ 53"
    by (intro toDouble_error) simp
  with assms have "\<bar>s + toDouble c\<bar> < 2"
    by (simp add: abs_if split: if_splits)
  then have "\<bar>toDouble (s + toDouble c) - (s + toDouble c)\<bar> \<le> 1 / 2 ^ 53"
    by (rule toDouble_error)
  with c assms(1) show ?thesis
    by (simp add: abs_if split: if_splits)
qed

lemma sub_step:
  assumes "\<bar>s - t\<bar> \<le> err" and "err \<le> 1 / 100" and "\<bar>t\<bar> \<le> 9 / 5" and "\<bar>c\<bar> \<le> 3 / 20"
  shows "\<bar>toDouble (s - toDouble c) - (t - c)\<bar> \<le> err + 2 / 2 ^ 53"
proof -
  from assms(4) have c: "\<bar>toDouble c - c\<bar> \<le> 1 / 2 ^ 53"
    by (intro toDouble_error) simp
  with assms have "\<bar>s - toDouble c\<bar> < 2"
    by (simp add: abs_if split: if_splits)
  then have "\<bar>toDouble (s - toDouble c) - (s - toDouble c)\<bar> \<le> 1 / 2 ^ 53"
    by (rule toDouble_error)
  with c assms(1) show ?thesis
    by (simp add: abs_if split: if_splits)
qed

lemma iterate_error:
  assumes step: "\<And>s t err. \<bar>s - t\<bar> \<le> err \<Longrightarrow> err \<le> 1 / 100 \<Longrightarrow> \<bar>t\<bar> \<le> 9 / 5
                   \<Longrightarrow> \<bar>g s - (t + inc)\<bar> \<le> err + 2 / 2 ^ 53"
    and "\<bar>s0 - t0\<bar> \<le> err0" and "err0 + real n * (2 / 2 ^ 53) \<le> 1 / 100"
    and "\<bar>t0\<bar> + real n * \<bar>inc\<bar> \<le> 9 / 5"
  shows "\<bar>(g ^^ n) s0 - (t0 + real n * inc)\<bar> \<le> err0 + real n * (2 / 2 ^ 53)"
  using assms(3,4)
proof (induction n)
  case 0
  from assms(2) show ?case by simp
next
  case (Suc n)
  have "err0 + real n * (2 / 2 ^ 53) \<le> err0 + real (Suc n) * (2 / 2 ^ 53)"
    by simp
  moreover have "\<bar>t0\<bar> + real n * \<bar>inc\<bar> \<le> \<bar>t0\<bar> + real (Suc n) * \<bar>inc\<bar>"
    by (simp add: algebra_simps)
  ultimately have "err0 + real n * (2 / 2 ^ 53) \<le> 1 / 100"
    and "\<bar>t0\<bar> + real n * \<bar>inc\<bar> \<le> 9 / 5"
    using Suc.prems by linarith+
  with Suc.IH
  have ih: "\<bar>(g ^^ n) s0 - (t0 + real n * inc)\<bar> \<le> err0 + real n * (2 / 2 ^ 53)"
    and small: "err0 + real n * (2 / 2 ^ 53) \<le> 1 / 100"
    and bound: "\<bar>t0\<bar> + real n * \<bar>inc\<bar> \<le> 9 / 5"
    by simp_all
  have "\<bar>t0 + real n * inc\<bar> \<le> \<bar>t0\<bar> + real n * \<bar>inc\<bar>"
    by (metis abs_mult abs_of_nat abs_triangle_ineq)
  with bound have "\<bar>t0 + real n * inc\<bar> \<le> 9 / 5" by simp
  from step [OF ih small this] show ?case
    by (simp add: algebra_simps add_divide_distrib)
qed

lemma clamp_error: "\<bar>max 0 (min 1 a) - max 0 (min 1 b)\<bar> \<le> \<bar>a - b\<bar>" for a b :: real
  by (simp add: max_def min_def abs_if)

text \<open>
  At most 17 passes and the final addition of one half: 35 roundings, each of at most
  \<open>2^-53\<close>.
\<close>

lemma formalityOfCounts_error:
  assumes "n \<le> 6" and "m \<le> 5" and "k \<le> 6"
  shows "\<bar>formalityOfCounts n m k - formulaOfCounts n m k\<bar> \<le> 35 / 2 ^ 53"
proof -
  let ?g1 = "\<lambda>s. toDouble (s + toDouble 0.15)"
  let ?g2 = "\<lambda>s. toDouble (s - toDouble 0.1)"
  let ?g3 = "\<lambda>s. toDouble (s - toDouble 0.15)"
  let ?s1 = "(?g1 ^^ n) 0"
  let ?s2 = "(?g2 ^^ m) ?s1"
  let ?s3 = "(?g3 ^^ k) ?s2"
  let ?t1 = "0 + real n * 0.15"
  let ?t2 = "?t1 + real m * (- 0.1)"
  let ?t3 = "?t2 + real k * (- 0.15)"
  from assms have nmk: "real n \<le> 6" "real m \<le> 5" "real k \<le> 6"
    by simp_all
  have e1: "\<bar>?s1 - ?t1\<bar> \<le> 0 + real n * (2 / 2 ^ 53)"
  proof (rule iterate_error)
    show "\<bar>toDouble (s + toDouble 0.15) - (t + 0.15)\<bar> \<le> err + 2 / 2 ^ 53"
      if "\<bar>s - t\<bar> \<le> err" "err \<le> 1 / 100" "\<bar>t\<bar> \<le> 9 / 5" for s t err
      using that by (intro add_step) simp_all
  qed (use nmk in simp_all)
  have e2: "\<bar>?s2 - ?t2\<bar> \<le> (0 + real n * (2 / 2 ^ 53)) + real m * (2 / 2 ^ 53)"
  proof (rule iterate_error [OF _ e1])
    show "\<bar>toDouble (s - toDouble 0.1) - (t + - 0.1)\<bar> \<le> err + 2 / 2 ^ 53"
      if "\<bar>s - t\<bar> \<le> err" "err \<le> 1 / 100" "\<bar>t\<bar> \<le> 9 / 5" for s t err
      using sub_step [OF that, of "0.1"] by simp
  qed (use nmk in simp_all)
  have e3: "\<bar>?s3 - ?t3\<bar>
      \<le> ((0 + real n * (2 / 2 ^ 53)) + real m * (2 / 2 ^ 53)) + real k * (2 / 2 ^ 53)"
  proof (rule iterate_error [OF _ e2])
    show "\<bar>toDouble (s - toDouble 0.15) - (t + - 0.15)\<bar> \<le> err + 2 / 2 ^ 53"
      if "\<bar>s - t\<bar> \<le> err" "err \<le> 1 / 100" "\<bar>t\<bar> \<le> 9 / 5" for s t err
      using sub_step [OF that, of "0.15"] by simp
  qed (use nmk in \<open>simp_all add: abs_if\<close>)
  from e3 nmk have e3': "\<bar>?s3 - ?t3\<bar> \<le> 34 / 2 ^ 53"
    by simp
  from nmk have "\<bar>?t3\<bar> \<le> 7 / 5"
    by (simp add: abs_if)
  with e3' have "\<bar>0.5 + ?s3\<bar> < 2"
    by (simp add: abs_if split: if_splits)
  then have "\<bar>toDouble (0.5 + ?s3) - (0.5 + ?s3)\<bar> \<le> 1 / 2 ^ 53"
    by (rule toDouble_error)
  with e3' have "\<bar>toDouble (0.5 + ?s3) - (0.5 + ?t3)\<bar> \<le> 35 / 2 ^ 53"
    by (simp add: abs_if split: if_splits)
  moreover have "formulaOfCounts n m k = max 0 (min 1 (0.5 + ?t3))"
    by (simp add: formulaOfCounts_def algebra_simps)
  moreover have "formalityOfCounts n m k = max 0 (min 1 (toDouble (0.5 + ?s3)))"
    by (simp add: formalityOfCounts_def)
  ultimately show ?thesis
    using clamp_error [of "toDouble (0.5 + ?s3)" "0.5 + ?t3"] by simp
qed

subsection \<open>The formula, up to rounding\<close>

text \<open>
  Claim C9, as the code has it. \<open>getFormalityScore\<close> depends on the text through three
  counts only: the formal connectives, the contractions and the slang tokens that occur
  in the lowercased text, each item counted once however often it occurs. Its value is
  the running sum of the code at these counts, added to one half and clamped to the unit
  interval. The sum is formed in binary64, so the value is the specification's formula up
  to rounding: it lies within \<open>35 * 2^-53\<close> of the formula's exact value, and need not be
  equal to it.
\<close>

theorem getFormalityScore_within_rounding:
  "getFormalityScore text =
     formalityOfCounts (foundIn (toLowerCase text) formalWords)
       (foundIn (toLowerCase text) contractions) (foundIn (toLowerCase text) slang)
   \<and> \<bar>getFormalityScore text - formalityBySpec text\<bar> \<le> 35 / 2 ^ 53"
proof -
  have "foundIn (toLowerCase text) formalWords \<le> 6"
    "foundIn (toLowerCase text) contractions \<le> 5"
    "foundIn (toLowerCase text) slang \<le> 6"
    using foundIn_le [of "toLowerCase text" formalWords]
      foundIn_le [of "toLowerCase text" contractions] foundIn_le [of "toLowerCase text" slang]
    by (simp_all add: formalWords_def contractions_def slang_def)
  then show ?thesis
    by (simp only: getFormalityScore_counts formalityBySpec_counts formalityOfCounts_error
        simp_thms)
qed

subsection \<open>Closed examples\<close>

lemma binadeFrom_numeral:
  "binadeFrom (numeral n) a e =
     (if a < 1 then binadeFrom (pred_numeral n) (2 * a) (e - 1)
      else if 2 \<le> a then binadeFrom (pred_numeral n) (a / 2) (e + 1)
      else e)"
  by (simp add: numeral_eq_Suc)

lemma funpow_numeral: "(f ^^ numeral n) x = f ((f ^^ pred_numeral n) x)"
  by (simp add: numeral_eq_Suc)

lemmas evaluate_double = toDouble_def quantumOf_def roundTo_def roundHalfEven_def nearest_def
  binade_def pow2_def binadeFrom_numeral

lemmas unroll_loops = funpow_numeral pred_numeral_simps BitM.simps funpow_0

lemma formalityOfCounts_4_5_0: "formalityOfCounts 4 5 0 = 5404319552844596 / 2 ^ 53"
  apply (simp only: formalityOfCounts_def unroll_loops)
  apply (simp add: evaluate_double)
  done

lemma formalityOfCounts_1_1_1: "formalityOfCounts 1 1 1 = 3602879701896397 / 2 ^ 53"
  apply (simp only: formalityOfCounts_def One_nat_def funpow.simps o_apply id_apply)
  apply (simp add: evaluate_double)
  done

lemma toDouble_three_fifths: "toDouble (3 / 5) = 5404319552844595 / 2 ^ 53"
  by (simp add: evaluate_double)

lemma toDouble_threshold: "toDouble 0.6 = 5404319552844595 / 2 ^ 53"
  by (simp add: evaluate_double)

text \<open>
  A text with four formal connectives and five contractions. The formula gives 3/5; the
  code returns the binary64 value next above the one nearest to 3/5 (it prints as
  0.6000000000000001). The test \<open>formality > 0.6\<close> of \<open>hasMixedFormalEmoji\<close> holds of the
  code's value and not of the formula's.
\<close>

theorem getFormalityScore_formula_counterexample:
  "foundIn (toLowerCase ''Therefore, furthermore, moreover and consequently: don't, can't, won't, shouldn't, wouldn't'') formalWords = 4
   \<and> foundIn (toLowerCase ''Therefore, furthermore, moreover and consequently: don't, can't, won't, shouldn't, wouldn't'') contractions = 5
   \<and> foundIn (toLowerCase ''Therefore, furthermore, moreover and consequently: don't, can't, won't, shouldn't, wouldn't'') slang = 0
   \<and> formalityBySpec ''Therefore, furthermore, moreover and consequently: don't, can't, won't, shouldn't, wouldn't'' = 3 / 5
   \<and> toDouble (3 / 5) = 5404319552844595 / 2 ^ 53
   \<and> getFormalityScore ''Therefore, furthermore, moreover and consequently: don't, can't, won't, shouldn't, wouldn't'' = 5404319552844596 / 2 ^ 53
   \<and> getFormalityScore ''Therefore, furthermore, moreover and consequently: don't, can't, won't, shouldn't, wouldn't'' \<noteq> formalityBySpec ''Therefore, furthermore, moreover and consequently: don't, can't, won't, shouldn't, wouldn't''
   \<and> getFormalityScore ''Therefore, furthermore, moreover and consequently: don't, can't, won't, shouldn't, wouldn't'' \<noteq> toDouble (formalityBySpec ''Therefore, furthermore, moreover and consequently: don't, can't, won't, shouldn't, wouldn't'')
   \<and> getFormalityScore ''Therefore, furthermore, moreover and consequently: don't, can't, won't, shouldn't, wouldn't'' > toDouble 0.6
   \<and> \<not> formalityBySpec ''Therefore, furthermore, moreover and consequently: don't, can't, won't, shouldn't, wouldn't'' > 0.6"
proof -
  have counts: "foundIn (toLowerCase ''Therefore, furthermore, moreover and consequently: don't, can't, won't, shouldn't, wouldn't'') formalWords = 4
      \<and> foundIn (toLowerCase ''Therefore, furthermore, moreover and consequently: don't, can't, won't, shouldn't, wouldn't'') contractions = 5
      \<and> foundIn (toLowerCase ''Therefore, furthermore, moreover and consequently: don't, can't, won't, shouldn't, wouldn't'') slang = 0"
    by code_simp
  then have spec: "formalityBySpec ''Therefore, furthermore, moreover and consequently: don't, can't, won't, shouldn't, wouldn't'' = 3 / 5"
    by (simp add: formalityBySpec_counts formulaOfCounts_def)
  from counts have code: "getFormalityScore ''Therefore, furthermore, moreover and consequently: don't, can't, won't, shouldn't, wouldn't'' = 5404319552844596 / 2 ^ 53"
    by (simp only: getFormalityScore_counts formalityOfCounts_4_5_0)
  show ?thesis
    unfolding code spec toDouble_three_fifths toDouble_threshold
    using counts by simp
qed

theorem getFormalityScore_within_rounding_witness:
  "foundIn (toLowerCase ''Thus, thus I can't lol lol'') formalWords = 1
   \<and> foundIn (toLowerCase ''Thus, thus I can't lol lol'') contractions = 1
   \<and> foundIn (toLowerCase ''Thus, thus I can't lol lol'') slang = 1
   \<and> getFormalityScore ''Thus, thus I can't lol lol'' = formalityOfCounts 1 1 1
   \<and> formalityOfCounts 1 1 1 = 3602879701896397 / 2 ^ 53
   \<and> formalityBySpec ''Thus, thus I can't lol lol'' = 2 / 5
   \<and> \<bar>getFormalityScore ''Thus, thus I can't lol lol'' - 2 / 5\<bar> \<le> 35 / 2 ^ 53"
proof -
  have counts: "foundIn (toLowerCase ''Thus, thus I can't lol lol'') formalWords = 1
      \<and> foundIn (toLowerCase ''Thus, thus I can't lol lol'') contractions = 1
      \<and> foundIn (toLowerCase ''Thus, thus I can't lol lol'') slang = 1"
    by code_simp
  then have spec: "formalityBySpec ''Thus, thus I can't lol lol'' = 2 / 5"
    by (simp add: formalityBySpec_counts formulaOfCounts_def)
  from getFormalityScore_within_rounding [of "''Thus, thus I can't lol lol''"] counts spec formalityOfCounts_1_1_1
  show ?thesis by simp
qed

section \<open>The duplicate tracker\<close>

lemma mapSet_keys:
  "map fst (mapSet k v es) = (if k \<in> fst ` set es then map fst es else map fst es @ [k])"
  by (induction es) force+

lemma mapSet_fresh: "k \<notin> fst ` set es \<Longrightarrow> mapSet k v es = es @ [(k, v)]"
  by (induction es) auto

lemma mapSet_member: "(k, v) \<in> set (mapSet k v es)"
  by (induction es) auto

lemma length_mapSet:
  "length (mapSet k v es) = (if k \<in> fst ` set es then length es else Suc (length es))"
  using arg_cong [OF mapSet_keys, of length k v es] by (simp split: if_splits)

lemma evictOldest_append:
  "n \<le> length es \<Longrightarrow> evictOldest n (es @ ys) = evictOldest n es @ ys"
  by (induction n es rule: evictOldest.induct) auto

lemma evictOldest_nonempty_keys:
  "[] \<notin> fst ` set es \<Longrightarrow> evictOldest n es = drop n es"
  by (induction n es rule: evictOldest.induct) auto

lemma evictOldest_subset: "set (evictOldest n es) \<subseteq> set es"
  by (induction n es rule: evictOldest.induct) auto

lemma distinct_evictOldest:
  "distinct (map fst es) \<Longrightarrow> distinct (map fst (evictOldest n es))"
proof (induction n es rule: evictOldest.induct)
  case (3 n key v es)
  have "fst ` set (evictOldest n es) \<subseteq> fst ` set es"
    using evictOldest_subset by (rule image_mono)
  with 3 show ?case by auto
qed simp_all

lemma length_evictOldest:
  assumes "distinct (map fst es)" and "n \<le> length es"
  shows "length (evictOldest n es) \<le> Suc (length es - n)"
  using assms
proof (induction n es rule: evictOldest.induct)
  case (3 n key v es)
  show ?case
  proof (cases "key = []")
    case True
    with 3 have "[] \<notin> fst ` set es" by auto
    then have "evictOldest n es = drop n es" by (rule evictOldest_nonempty_keys)
    with True 3 show ?thesis by simp
  next
    case False
    with 3 show ?thesis by auto
  qed
qed simp_all

lemma addToCache_same_tracker:
  "recentTweets d1 = recentTweets d2 \<Longrightarrow>
     recentTweets (addToCache d1 text who) = recentTweets (addToCache d2 text who)"
  by (simp add: addToCache_def Let_def)

lemma cacheInvariant_addToCache:
  assumes "cacheInvariant d"
  shows "cacheInvariant (addToCache d text who)"
proof -
  let ?es = "mapSet (normalizeText text) who (recentTweets d)"
  from assms have dist: "distinct (map fst ?es)"
    by (auto simp: cacheInvariant_def mapSet_keys)
  from assms have len: "length ?es \<le> Suc maxCacheSize"
    by (simp add: cacheInvariant_def length_mapSet)
  show ?thesis
  proof (cases "length ?es > maxCacheSize")
    case True
    with len have "length ?es = 501" by (simp add: maxCacheSize_def)
    with length_evictOldest [OF dist, of 100]
    have "length (evictOldest 100 ?es) \<le> maxCacheSize"
      by (simp add: maxCacheSize_def)
    with True dist show ?thesis
      by (simp add: cacheInvariant_def addToCache_def Let_def distinct_evictOldest)
  next
    case False
    with dist show ?thesis
      by (simp add: cacheInvariant_def addToCache_def Let_def)
  qed
qed

lemma addToCache_member:
  assumes "cacheInvariant d"
  shows "(normalizeText text, who) \<in> set (recentTweets (addToCache d text who))"
proof -
  let ?k = "normalizeText text"
  let ?es = "mapSet ?k who (recentTweets d)"
  show ?thesis
  proof (cases "length ?es > maxCacheSize")
    case True
    with assms have fresh: "?k \<notin> fst ` set (recentTweets d)"
      and full: "100 \<le> length (recentTweets d)"
      by (auto simp: cacheInvariant_def length_mapSet maxCacheSize_def split: if_splits)
    from fresh have "?es = recentTweets d @ [(?k, who)]" by (rule mapSet_fresh)
    with full have "evictOldest 100 ?es = evictOldest 100 (recentTweets d) @ [(?k, who)]"
      by (simp add: evictOldest_append)
    with True show ?thesis by (simp add: addToCache_def Let_def)
  next
    case False
    then show ?thesis by (simp add: addToCache_def Let_def mapSet_member)
  qed
qed

lemma addToCache_present_key:
  assumes "cacheInvariant d" and "normalizeText text \<in> fst ` set (recentTweets d)"
  shows "recentTweets (addToCache d text who) = mapSet (normalizeText text) who (recentTweets d)"
  using assms by (simp add: addToCache_def Let_def cacheInvariant_def length_mapSet)

lemma checkDuplicateLoop_exact:
  "(normalized, author) \<in> set es \<Longrightarrow> author \<noteq> who \<Longrightarrow> checkDuplicateLoop normalized who es"
  by (induction es) auto

lemma checkDuplicateLoop_structural:
  "(cached, author) \<in> set es \<Longrightarrow> author \<noteq> who \<Longrightarrow> checkStructuralSimilarity normalized cached
     \<Longrightarrow> checkDuplicateLoop normalized who es"
  by (induction es) auto

lemma analyze_features:
  assumes "analyze h d text md = Inr (r, d')" and "features r \<noteq> KnownAIBot"
  shows "\<exists>t. text = Text t
           \<and> duplicateFlag r = Some (checkDuplicateContent d t (username md))
           \<and> recentTweets d' = recentTweets (addToCache d t (username md))"
proof -
  from analyze_Inr [OF assms(1)] assms(2) obtain f e where
    ex: "extractFeatures h (ensurePatterns h d) text md = Inr (f, e)"
    and r: "features r = Features f" and d': "recentTweets d' = recentTweets e"
    by auto
  from extractFeatures_Inr [OF ex] obtain t where
    "text = Text t" "e = addToCache (ensurePatterns h d) t (username md)"
    "isDuplicateContent f = checkDuplicateContent (ensurePatterns h d) t (username md)"
    by blast
  with r d' show ?thesis
    using addToCache_same_tracker [of "ensurePatterns h d" d t "username md"]
    by (simp add: duplicateFlag_def checkDuplicateContent_def ensurePatterns_frame)
qed

lemma analyze_bot_iff:
  assumes "analyze h d text md = Inr (r, d')"
  shows "(features r = KnownAIBot)
       = (case username md of None \<Rightarrow> False | Some u \<Rightarrow> u \<noteq> [] \<and> isKnownBot u)"
  using assms by (auto simp: analyze_def Let_def split: if_splits sum.splits)

text \<open>
  Claim C3, as the code has it. The tracker keeps one user name for a normalized text,
  the last one recorded. When a text is analyzed for one author, then for a different
  author, then for the first author again, the second analysis is flagged as a duplicate
  and so is the third: by then the text is recorded under the second author.
\<close>

theorem repeat_after_other_author_is_flagged:
  assumes "cacheInvariant d0"
    and "analyze h d0 (Text t) ma = Inr (r1, d1)"
    and "analyze h d1 (Text t) mb = Inr (r2, d2)"
    and "analyze h d2 (Text t) ma = Inr (r3, d3)"
    and "username ma \<noteq> username mb"
    and "features r1 \<noteq> KnownAIBot" and "features r2 \<noteq> KnownAIBot"
  shows "duplicateFlag r2 = Some True \<and> duplicateFlag r3 = Some True"
proof -
  let ?k = "normalizeText t"
  from analyze_features [OF assms(2,6)]
  have c1: "recentTweets d1 = recentTweets (addToCache d0 t (username ma))" by simp
  with assms(1) have in1: "(?k, username ma) \<in> set (recentTweets d1)"
    by (simp add: addToCache_member)
  from c1 assms(1) have inv1: "cacheInvariant d1"
    using cacheInvariant_addToCache [of d0 t "username ma"] by (simp add: cacheInvariant_def)
  from analyze_features [OF assms(3,7)]
  have f2: "duplicateFlag r2 = Some (checkDuplicateContent d1 t (username mb))"
    and c2: "recentTweets d2 = recentTweets (addToCache d1 t (username mb))" by simp_all
  from in1 assms(5) have "checkDuplicateContent d1 t (username mb)"
    by (simp add: checkDuplicateContent_def checkDuplicateLoop_exact)
  with f2 have flag2: "duplicateFlag r2 = Some True" by simp
  from c2 inv1 have in2: "(?k, username mb) \<in> set (recentTweets d2)"
    by (simp add: addToCache_member)
  from analyze_bot_iff [OF assms(2)] analyze_bot_iff [OF assms(4)] assms(6)
  have "features r3 \<noteq> KnownAIBot" by simp
  from analyze_features [OF assms(4) this]
  have f3: "duplicateFlag r3 = Some (checkDuplicateContent d2 t (username ma))" by simp
  from in2 assms(5) have "checkDuplicateContent d2 t (username ma)"
    by (simp add: checkDuplicateContent_def checkDuplicateLoop_exact)
  with f3 flag2 show ?thesis by simp
qed

text \<open>
  The scenario of the specification on a fresh detector, evaluated: the flag of the
  third analysis, the first author's own repeat, is set.
\<close>

lemma run_alice_bob_alice:
  "case analyzeAll quietHost newDetector
          [(Text ''This is absolutely incredible news today'', user ''alice''),
           (Text ''This is absolutely incredible news today'', user ''bob''),
           (Text ''This is absolutely incredible news today'', user ''alice'')] of
     Inl e \<Rightarrow> False
   | Inr (rs, d) \<Rightarrow>
       map duplicateFlag rs = [Some False, Some True, Some True]
       \<and> recentTweets d = [(''this is absolutely incredible news today'', Some ''alice'')]"
  by code_simp

theorem own_repeat_not_flagged_counterexample:
  "flags (analyzeAll quietHost newDetector
          [(Text ''This is absolutely incredible news today'', user ''alice''),
           (Text ''This is absolutely incredible news today'', user ''bob''),
           (Text ''This is absolutely incredible news today'', user ''alice'')])
   = Inr [Some False, Some True, Some True]"
  using run_alice_bob_alice by (auto simp: flags_def split: sum.splits)

theorem repeat_after_other_author_is_flagged_witness:
  "cacheInvariant newDetector
   \<and> username (user ''alice'') \<noteq> username (user ''bob'')
   \<and> (case analyzeAll quietHost newDetector
          [(Text ''This is absolutely incredible news today'', user ''alice''),
           (Text ''This is absolutely incredible news today'', user ''bob''),
           (Text ''This is absolutely incredible news today'', user ''alice'')] of
         Inl e \<Rightarrow> False
       | Inr (rs, d) \<Rightarrow> length rs = 3 \<and> duplicateFlag (rs ! 1) = Some True
                         \<and> duplicateFlag (rs ! 2) = Some True)"
proof -
  let ?T = "Text ''This is absolutely incredible news today''"
  have inv: "cacheInvariant newDetector"
    by (simp add: cacheInvariant_def newDetector_def)
  have names: "username (user ''alice'') \<noteq> username (user ''bob'')"
    by (simp add: user_def)
  from run_alice_bob_alice obtain r1 d1 r2 d2 r3 d3 where
    a1: "analyze quietHost newDetector ?T (user ''alice'') = Inr (r1, d1)" and
    a2: "analyze quietHost d1 ?T (user ''bob'') = Inr (r2, d2)" and
    a3: "analyze quietHost d2 ?T (user ''alice'') = Inr (r3, d3)" and
    run: "analyzeAll quietHost newDetector
            [(?T, user ''alice''), (?T, user ''bob''), (?T, user ''alice'')]
          = Inr ([r1, r2, r3], d3)" and
    fl: "duplicateFlag r1 = Some False" "duplicateFlag r2 = Some True"
    by (auto split: sum.splits)
  from fl have gen: "features r1 \<noteq> KnownAIBot" "features r2 \<noteq> KnownAIBot"
    by (auto simp: duplicateFlag_def)
  from repeat_after_other_author_is_flagged [OF inv a1 a2 a3 names gen] inv names run
  show ?thesis by simp
qed

section \<open>Eviction\<close>

lemma normalizeText_letters: "normalizeText (letters n) = letters n"
proof -
  have low: "lowerChar (CHR ''a'') = CHR ''a''" by code_simp
  have sp: "\<not> isSpace (CHR ''a'')" by code_simp
  have wd: "isWordChar (CHR ''a'')" by code_simp
  from sp have col: "collapseSpaces (replicate m (CHR ''a'')) = replicate m (CHR ''a'')" for m
    by (induction m) simp_all
  from sp have dw: "dropWhile isSpace (replicate m (CHR ''a'')) = replicate m (CHR ''a'')" for m
    by (cases m) simp_all
  show ?thesis
    by (simp add: normalizeText_def letters_def toLowerCase_def trim_def low col wd sp dw)
qed

lemma letters_inj: "(letters m = letters n) = (m = n)"
  by (auto simp: letters_def dest: arg_cong [where f = length])

lemma letters_empty: "(letters n = []) = (n = 0)" "([] = letters n) = (n = 0)"
  by (auto simp: letters_def)

lemma evictOldest_empty_key:
  "0 < n \<Longrightarrow> evictOldest n (([], v) # es) = ([], v) # evictOldest (n - 1) es"
  by (cases n) simp_all

lemma addToCache_fresh:
  assumes "normalizeText text \<notin> fst ` set (recentTweets d)"
    and "length (recentTweets d) < maxCacheSize"
  shows "recentTweets (addToCache d text who) = recentTweets d @ [(normalizeText text, who)]"
  using assms by (simp add: addToCache_def Let_def mapSet_fresh)

lemma recordAll_fresh:
  assumes "distinct (map normalizeText ts)"
    and "set (map normalizeText ts) \<inter> fst ` set (recentTweets d) = {}"
    and "length (recentTweets d) + length ts \<le> maxCacheSize"
  shows "recentTweets (recordAll d ts who)
       = recentTweets d @ map (\<lambda>t. (normalizeText t, who)) ts"
  using assms
proof (induction ts arbitrary: d)
  case Nil
  then show ?case by simp
next
  case (Cons t ts)
  from Cons.prems have step:
    "recentTweets (addToCache d t who) = recentTweets d @ [(normalizeText t, who)]"
    by (intro addToCache_fresh) auto
  with Cons.prems have
    "recentTweets (recordAll (addToCache d t who) ts who)
     = recentTweets (addToCache d t who) @ map (\<lambda>t. (normalizeText t, who)) ts"
    by (intro Cons.IH) auto
  with step show ?case by simp
qed

lemma recordAll_snoc: "recordAll d (ts @ [t]) who = addToCache (recordAll d ts who) t who"
  by (induction ts arbitrary: d) simp_all

text \<open>
  Claim C6, at an input where the code departs from it. \<open>manyPosts\<close> are 501 posts with
  distinct normalized texts, recorded into a fresh tracker; the oldest normalizes to the
  empty string. The clean-up that the last insert triggers skips the empty key: the 99
  entries after it go, the oldest entry stays, and 402 entries are left.
\<close>

theorem eviction_skips_empty_key:
  "length manyPosts = 501 \<and> distinct (map normalizeText manyPosts)
   \<and> recentTweets (recordAll newDetector manyPosts (Some ''alice''))
       = ([], Some ''alice'') # map (\<lambda>n. (letters n, Some ''alice'')) [100 ..< 501]
   \<and> length (recentTweets (recordAll newDetector manyPosts (Some ''alice''))) = 402"
proof -
  let ?who = "Some ''alice''"
  let ?entry = "\<lambda>n. (letters n, ?who)"
  let ?first = "''!'' # map letters [Suc 0 ..< 500]"
  define before where "before = recordAll newDetector ?first ?who"
  have bang: "normalizeText ''!'' = []" by code_simp
  have upt: "[Suc 0 ..< 501] = [Suc 0 ..< 500] @ [500]"
    using upt_Suc_append [of 1 500] by simp
  have posts: "manyPosts = ?first @ [letters 500]"
    by (simp add: manyPosts_def upt del: upt_rec_numeral)
  have keys: "map normalizeText manyPosts = [] # map letters [Suc 0 ..< 501]"
    by (simp add: manyPosts_def bang normalizeText_letters del: upt_rec_numeral)
  have dist: "distinct (map normalizeText manyPosts)"
    unfolding keys
    by (auto simp: letters_inj letters_empty distinct_map inj_on_def simp del: upt_rec_numeral)
  have "recentTweets before
        = recentTweets newDetector @ map (\<lambda>t. (normalizeText t, ?who)) ?first"
    unfolding before_def
  proof (rule recordAll_fresh)
    from dist show "distinct (map normalizeText ?first)"
      by (simp add: posts del: upt_rec_numeral)
  qed (simp_all add: newDetector_def maxCacheSize_def del: upt_rec_numeral)
  then have cache: "recentTweets before = ([], ?who) # map ?entry [Suc 0 ..< 500]"
    by (simp add: newDetector_def bang normalizeText_letters comp_def del: upt_rec_numeral)
  have fresh: "letters 500 \<notin> fst ` set (recentTweets before)"
    unfolding cache
    by (auto simp: letters_inj letters_empty simp del: upt_rec_numeral)
  then have "mapSet (letters 500) ?who (recentTweets before)
        = recentTweets before @ [?entry 500]"
    by (rule mapSet_fresh)
  also have "\<dots> = ([], ?who) # map ?entry [Suc 0 ..< 501]"
    by (simp add: cache upt del: upt_rec_numeral)
  finally have entries: "mapSet (letters 500) ?who (recentTweets before)
        = ([], ?who) # map ?entry [Suc 0 ..< 501]" .
  have nonempty: "[] \<notin> fst ` set (map ?entry [Suc 0 ..< 501])"
    by (auto simp: letters_empty simp del: upt_rec_numeral)
  have "evictOldest 100 (([], ?who) # map ?entry [Suc 0 ..< 501])
        = ([], ?who) # evictOldest 99 (map ?entry [Suc 0 ..< 501])"
    by (simp add: evictOldest_empty_key del: upt_rec_numeral)
  also have "evictOldest 99 (map ?entry [Suc 0 ..< 501]) = drop 99 (map ?entry [Suc 0 ..< 501])"
    using nonempty by (rule evictOldest_nonempty_keys)
  also have "\<dots> = map ?entry [100 ..< 501]"
    by (simp add: drop_map del: upt_rec_numeral)
  finally have evict: "evictOldest 100 (([], ?who) # map ?entry [Suc 0 ..< 501])
        = ([], ?who) # map ?entry [100 ..< 501]" .
  have "recordAll newDetector manyPosts ?who = addToCache before (letters 500) ?who"
    by (simp only: posts recordAll_snoc before_def)
  then have result: "recentTweets (recordAll newDetector manyPosts ?who)
        = ([], ?who) # map ?entry [100 ..< 501]"
    by (simp add: addToCache_def Let_def normalizeText_letters entries evict maxCacheSize_def
        del: upt_rec_numeral)
  have "length manyPosts = 501"
    by (simp add: manyPosts_def del: upt_rec_numeral)
  with dist result show ?thesis
    by (simp del: upt_rec_numeral)
qed

section \<open>Structural similarity\<close>

lemma bigrams_by_index:
  "bigrams ws = map (\<lambda>i. ws ! i @ '' '' @ ws ! (i + 1)) [0 ..< length ws - 1]"
  by (rule nth_equalityI) (simp_all add: bigrams_def nth_tl)

lemma matchingSequences_bigramsFound:
  "length (filter (\<lambda>i. includesStr cached (splitSpace probe ! i @ '' '' @ splitSpace probe ! (i + 1)))
             [0 ..< length (splitSpace probe) - 1])
   = bigramsFound probe cached"
  by (simp add: bigramsFound_def wordsOf_def bigrams_by_index filter_map comp_def)

lemma checkStructuralSimilarity_iff:
  "checkStructuralSimilarity probe cached =
     (similarLength probe cached
      \<and> (if length (wordsOf probe) \<le> 8 \<and> length (wordsOf cached) \<le> 8
          then 4 \<le> length (filter (\<lambda>w. w \<in> set (wordsOf cached)) (wordsOf probe))
          else (real (length (wordsOf probe)) - 1) * 0.5 \<le> real (bigramsFound probe cached)))"
  unfolding checkStructuralSimilarity_def Let_def matchingSequences_bigramsFound
  by (auto simp: similarLength_def wordsOf_def)

lemma sharedWords_le_matching:
  "sharedWords probe cached
     \<le> length (filter (\<lambda>w. w \<in> set (splitSpace cached)) (splitSpace probe))"
proof -
  have "set (splitSpace probe) \<inter> set (splitSpace cached)
        = set (filter (\<lambda>w. w \<in> set (splitSpace cached)) (splitSpace probe))"
    by auto
  then show ?thesis
    by (simp only: sharedWords_def wordsOf_def card_length)
qed

lemma splitSpace_nonempty: "splitSpace s \<noteq> []"
  by (induction s) (auto split: list.splits)

lemma length_bigrams: "length (bigrams ws) = length ws - 1"
  by (simp add: bigrams_def)

text \<open>
  Claim C7, as the code has it. \<open>checkStructuralSimilarity\<close> first compares the word
  counts and answers no when they differ by more than three. Within that bound, a cached
  text recorded by a different author makes the probe a duplicate when both texts have at
  most eight words and share at least four, or else when at least half of the probe's
  adjacent word-bigrams occur in the cached text.
\<close>

theorem structural_similarity_flags_duplicate:
  assumes "(cached, author) \<in> set (recentTweets d)" and "author \<noteq> who"
    and "similarLength (normalizeText text) cached"
    and "(length (wordsOf (normalizeText text)) \<le> 8 \<and> length (wordsOf cached) \<le> 8
          \<and> 4 \<le> sharedWords (normalizeText text) cached)
       \<or> (\<not> (length (wordsOf (normalizeText text)) \<le> 8 \<and> length (wordsOf cached) \<le> 8)
          \<and> real (length (bigrams (wordsOf (normalizeText text)))) * 0.5
              \<le> real (bigramsFound (normalizeText text) cached))"
  shows "checkStructuralSimilarity (normalizeText text) cached \<and> checkDuplicateContent d text who"
proof -
  let ?probe = "normalizeText text"
  have "checkStructuralSimilarity ?probe cached"
    using assms(4)
  proof
    assume short: "length (wordsOf ?probe) \<le> 8 \<and> length (wordsOf cached) \<le> 8
        \<and> 4 \<le> sharedWords ?probe cached"
    with sharedWords_le_matching [of ?probe cached]
    have "4 \<le> length (filter (\<lambda>w. w \<in> set (splitSpace cached)) (splitSpace ?probe))"
      by simp
    with short assms(3) show ?thesis
      by (simp add: checkStructuralSimilarity_iff wordsOf_def)
  next
    assume long: "\<not> (length (wordsOf ?probe) \<le> 8 \<and> length (wordsOf cached) \<le> 8)
        \<and> real (length (bigrams (wordsOf ?probe))) * 0.5 \<le> real (bigramsFound ?probe cached)"
    have "1 \<le> length (splitSpace ?probe)"
      using splitSpace_nonempty [of ?probe] by (cases "splitSpace ?probe") simp_all
    then have "real (length (splitSpace ?probe) - 1) = real (length (splitSpace ?probe)) - 1"
      by (simp add: of_nat_diff)
    with long have "(real (length (splitSpace ?probe)) - 1) * 0.5 \<le> real (bigramsFound ?probe cached)"
      by (simp add: length_bigrams wordsOf_def)
    with long assms(3) show ?thesis
      by (auto simp: checkStructuralSimilarity_iff wordsOf_def)
  qed
  with assms(1,2) show ?thesis
    by (simp add: checkDuplicateContent_def checkDuplicateLoop_structural)
qed

text \<open>
  Two probes that meet the conditions of the claim as it is stated and are not flagged,
  against a tracker that holds one text of another author: eight words sharing four with
  a cached text of four words; nine words, all of whose bigrams occur in a cached text of
  twenty-two words.
\<close>

theorem structural_similarity_counterexample:
  "recentTweets (addToCache newDetector ''a b c d'' (Some ''alice'')) = [(''a b c d'', Some ''alice'')]
   \<and> length (wordsOf (normalizeText ''a b c d e f g h'')) = 8
   \<and> length (wordsOf ''a b c d'') = 4
   \<and> sharedWords (normalizeText ''a b c d e f g h'') ''a b c d'' = 4
   \<and> \<not> checkStructuralSimilarity (normalizeText ''a b c d e f g h'') ''a b c d''
   \<and> \<not> checkDuplicateContent (addToCache newDetector ''a b c d'' (Some ''alice''))
         ''a b c d e f g h'' (Some ''bob'')
   \<and> recentTweets (addToCache newDetector ''a b c d e f g h i j k l m n o p q r s t u v''
         (Some ''alice''))
       = [(''a b c d e f g h i j k l m n o p q r s t u v'', Some ''alice'')]
   \<and> length (bigrams (wordsOf (normalizeText ''a b c d e f g h i''))) = 8
   \<and> bigramsFound (normalizeText ''a b c d e f g h i'')
         ''a b c d e f g h i j k l m n o p q r s t u v'' = 8
   \<and> \<not> checkStructuralSimilarity (normalizeText ''a b c d e f g h i'')
         ''a b c d e f g h i j k l m n o p q r s t u v''
   \<and> \<not> checkDuplicateContent
         (addToCache newDetector ''a b c d e f g h i j k l m n o p q r s t u v'' (Some ''alice''))
         ''a b c d e f g h i'' (Some ''bob'')"
  by code_simp

theorem structural_similarity_flags_duplicate_witness:
  "recentTweets (addToCache newDetector ''a b c d x y'' (Some ''alice''))
     = [(''a b c d x y'', Some ''alice'')]
   \<and> similarLength (normalizeText ''A b, c d e f g h!'') ''a b c d x y''
   \<and> sharedWords (normalizeText ''A b, c d e f g h!'') ''a b c d x y'' = 4
   \<and> calculateSimilarity (normalizeText ''A b, c d e f g h!'') ''a b c d x y'' = 2 / 5
   \<and> checkStructuralSimilarity (normalizeText ''A b, c d e f g h!'') ''a b c d x y''
   \<and> checkDuplicateContent (addToCache newDetector ''a b c d x y'' (Some ''alice''))
        ''A b, c d e f g h!'' (Some ''bob'')"
proof -
  let ?d = "addToCache newDetector ''a b c d x y'' (Some ''alice'')"
  have cache: "recentTweets ?d = [(''a b c d x y'', Some ''alice'')]"
    by code_simp
  have vals: "similarLength (normalizeText ''A b, c d e f g h!'') ''a b c d x y''
      \<and> sharedWords (normalizeText ''A b, c d e f g h!'') ''a b c d x y'' = 4
      \<and> calculateSimilarity (normalizeText ''A b, c d e f g h!'') ''a b c d x y'' = 2 / 5
      \<and> length (wordsOf (normalizeText ''A b, c d e f g h!'')) \<le> 8
      \<and> length (wordsOf ''a b c d x y'') \<le> 8"
    by code_simp
  have mem: "(''a b c d x y'', Some ''alice'') \<in> set (recentTweets ?d)"
    by (simp add: cache)
  have names: "Some ''alice'' \<noteq> Some ''bob''"
    by simp
  from vals have len: "similarLength (normalizeText ''A b, c d e f g h!'') ''a b c d x y''"
    by simp
  from vals have cond:
    "(length (wordsOf (normalizeText ''A b, c d e f g h!'')) \<le> 8
        \<and> length (wordsOf ''a b c d x y'') \<le> 8
        \<and> 4 \<le> sharedWords (normalizeText ''A b, c d e f g h!'') ''a b c d x y'')
     \<or> (\<not> (length (wordsOf (normalizeText ''A b, c d e f g h!'')) \<le> 8
              \<and> length (wordsOf ''a b c d x y'') \<le> 8)
        \<and> real (length (bigrams (wordsOf (normalizeText ''A b, c d e f g h!'')))) * 0.5
            \<le> real (bigramsFound (normalizeText ''A b, c d e f g h!'') ''a b c d x y''))"
    by simp
  from structural_similarity_flags_duplicate [OF mem names len cond]
  have "checkStructuralSimilarity (normalizeText ''A b, c d e f g h!'') ''a b c d x y''
      \<and> checkDuplicateContent ?d ''A b, c d e f g h!'' (Some ''bob'')" .
  with cache vals show ?thesis by simp
qed

section \<open>The feature extractor on degenerate texts\<close>






















end
